theory Spec2Isabelle
  imports Complex_Main
begin

section \<open>Values of the JavaScript runtime\<close>

text \<open>
  A JavaScript number as the handlers use it: a finite value, \<open>NaN\<close>, or an infinity
  with its sign (\<open>Inf True\<close> is \<open>+Infinity\<close>). The operations below give the exact
  result of an operation on finite values; where the source's double differs from it,
  the result is rounded (see \<open>dbl\<close> below). The task list query computes with integers
  and takes the ceiling of one quotient of them, which the exact values give as the
  doubles do. Negative zero is not distinguished.
\<close>

datatype jsnum = Num rat | NaN | Inf bool

fun js_sub :: "jsnum \<Rightarrow> jsnum \<Rightarrow> jsnum" where
  "js_sub (Num a) (Num b) = Num (a - b)"
| "js_sub NaN _ = NaN"
| "js_sub _ NaN = NaN"
| "js_sub (Inf s) (Inf t) = (if s = t then NaN else Inf s)"
| "js_sub (Inf s) (Num _) = Inf s"
| "js_sub (Num _) (Inf t) = Inf (\<not> t)"

fun js_mul :: "jsnum \<Rightarrow> jsnum \<Rightarrow> jsnum" where
  "js_mul (Num a) (Num b) = Num (a * b)"
| "js_mul NaN _ = NaN"
| "js_mul _ NaN = NaN"
| "js_mul (Inf s) (Inf t) = Inf (s = t)"
| "js_mul (Inf s) (Num b) = (if b = 0 then NaN else Inf (s = (0 < b)))"
| "js_mul (Num a) (Inf t) = (if a = 0 then NaN else Inf (t = (0 < a)))"

fun js_div :: "jsnum \<Rightarrow> jsnum \<Rightarrow> jsnum" where
  "js_div (Num a) (Num b) =
     (if b = 0 then (if a = 0 then NaN else Inf (0 < a)) else Num (a / b))"
| "js_div NaN _ = NaN"
| "js_div _ NaN = NaN"
| "js_div (Inf s) (Inf t) = NaN"
| "js_div (Inf s) (Num b) = Inf (s = (0 \<le> b))"
| "js_div (Num a) (Inf t) = Num 0"

text \<open>\<open>Math.ceil\<close>.\<close>

fun js_ceil :: "jsnum \<Rightarrow> jsnum" where
  "js_ceil (Num a) = Num (of_int \<lceil>a\<rceil>)"
| "js_ceil NaN = NaN"
| "js_ceil (Inf s) = Inf s"

text \<open>
  A numeric query parameter is a string of the URL or is missing (\<open>undefined\<close>). The
  model keeps the integer a supplied numeral denotes, and \<open>None\<close> for a missing
  parameter; strings that are not integer numerals are outside the type (the query
  validator rejects them). \<open>to_number\<close> is the coercion that \<open>-\<close>, \<open>*\<close> and \<open>/\<close>
  apply to such an operand, \<open>parseInt\<close> is the global function: both give \<open>NaN\<close> for
  \<open>undefined\<close>.
\<close>

definition to_number :: "int option \<Rightarrow> jsnum" where
  "to_number v = (case v of None \<Rightarrow> NaN | Some n \<Rightarrow> Num (of_int n))"

definition parseInt :: "int option \<Rightarrow> jsnum" where
  "parseInt v = (case v of None \<Rightarrow> NaN | Some n \<Rightarrow> Num (of_int n))"

text \<open>Truthiness of a string: only the empty string is falsy.\<close>

definition truthy :: "string \<Rightarrow> bool" where
  "truthy s = (s \<noteq> [])"

text \<open>An optional string property used as a condition: missing is falsy.\<close>

definition truthy_opt :: "string option \<Rightarrow> bool" where
  "truthy_opt v = (case v of None \<Rightarrow> False | Some s \<Rightarrow> truthy s)"

section \<open>Errors\<close>

text \<open>
  The status a handler answers with when it does not succeed: 400, 403, 404 and 500
  (the message texts are not kept).
\<close>

datatype error = BadRequest | Forbidden | NotFound | ServerError

text \<open>
  What a library call may throw inside a handler. Every handler body is a \<open>try\<close> block
  whose \<open>catch\<close> answers 500, so a thrown value always becomes \<open>ServerError\<close>.
\<close>

datatype thrown = ValidationError | CastError | DuplicateKey | SyntaxError | TypeError

section \<open>Data model\<close>

type_synonym oid = string
type_synonym date = int

text \<open>
  Modelled from the spec: the Identity record (\<open>models/User.js\<close> and
  \<open>middleware/auth.js\<close> are not among the sources). The handlers read \<open>req.user._id\<close>,
  \<open>req.user.id\<close> and \<open>req.user.role\<close>; population selects the user name fields.
\<close>

record user =
  u_id :: oid
  u_username :: string
  u_firstName :: string
  u_lastName :: string
  u_role :: string

text \<open>A populated reference: \<open>populate(path, 'username firstName lastName')\<close>.\<close>

record user_view =
  v_id :: oid
  v_username :: string
  v_firstName :: string
  v_lastName :: string

text \<open>\<open>models/Task.js\<close>; \<open>timestamps: true\<close> adds \<open>createdAt\<close> and \<open>updatedAt\<close>.\<close>

record task =
  t_id :: oid
  t_title :: string
  t_description :: "string option"
  t_status :: string
  t_priority :: string
  t_dueDate :: "date option"
  t_tags :: "string list"
  t_assignedTo :: "oid option"
  t_createdBy :: oid
  t_isDeleted :: bool
  t_deletedAt :: "date option"
  t_createdAt :: date
  t_updatedAt :: date

text \<open>\<open>models/Comment.js\<close>.\<close>

record comment =
  c_id :: oid
  c_content :: string
  c_task :: oid
  c_author :: oid
  c_isDeleted :: bool
  c_deletedAt :: "date option"
  c_createdAt :: date
  c_updatedAt :: date

text \<open>The file metadata schema (\<open>models/File.js\<close>).\<close>

record file_meta =
  f_id :: oid
  f_filename :: string
  f_originalName :: string
  f_mimetype :: string
  f_size :: nat
  f_path :: string
  f_task :: oid
  f_uploadedBy :: oid
  f_isDeleted :: bool
  f_deletedAt :: "date option"
  f_createdAt :: date
  f_updatedAt :: date

text \<open>
  The collections of the database in their natural order, and the paths present in the
  upload directory.
\<close>

record store =
  tasks :: "task list"
  comments :: "comment list"
  files :: "file_meta list"
  users :: "user list"
  disk :: "string list"

section \<open>Collaborators outside the repository\<close>

text \<open>
  What the handlers call but the repository does not define, taken as parameters:
  \<^item> \<open>isValid\<close>: \<open>mongoose.Types.ObjectId.isValid\<close>;
  \<^item> \<open>castObjectId\<close>: the cast of a string to an ObjectId that Mongoose applies to
    filters and document paths (\<open>None\<close>: it throws a cast error);
  \<^item> \<open>regex\<close>: the regular expression engine: for a pattern and its options (the
    source always passes \<open>i\<close>), the test whether a text has a match, \<open>None\<close> when the
    pattern does not compile, in the constructor \<open>RegExp\<close> or in the database;
  \<^item> \<open>strTrim\<close>: \<open>String.prototype.trim\<close>, which the \<open>trim\<close> setter of a schema
    path applies;
  \<^item> \<open>fl\<close>: the rounding of an exact result to the double the arithmetic returns
    (overflow does not arise for counts and durations in milliseconds);
  \<^item> \<open>newObjectId\<close>: the \<open>k\<close>-th identifier generated during a request;
  \<^item> \<open>dateNow\<close>: \<open>new Date()\<close>, one instant for a request;
  \<^item> \<open>oddWindow\<close>: what the database does with a skip or limit that is not a
    non-negative, respectively positive, integer: it throws, or it serves some window
    (rows skipped, rows returned at most);
  \<^item> \<open>unlinkOk\<close>: whether \<open>fs.unlinkSync\<close> removes an existing path (otherwise it throws).
\<close>

record ext =
  isValid :: "string \<Rightarrow> bool"
  castObjectId :: "string \<Rightarrow> oid option"
  regex :: "string \<Rightarrow> string \<Rightarrow> (string \<Rightarrow> bool) option"
  strTrim :: "string \<Rightarrow> string"
  fl :: "rat \<Rightarrow> rat"
  newObjectId :: "nat \<Rightarrow> oid"
  dateNow :: date
  oddWindow :: "jsnum \<Rightarrow> jsnum \<Rightarrow> thrown + (nat \<times> nat option)"
  unlinkOk :: "string \<Rightarrow> bool"

text \<open>The double that an arithmetic operation returns for its exact result.\<close>

fun dbl :: "ext \<Rightarrow> jsnum \<Rightarrow> jsnum" where
  "dbl x (Num a) = Num (fl x a)"
| "dbl x NaN = NaN"
| "dbl x (Inf s) = Inf s"

section \<open>Collection operations\<close>

text \<open>\<open>findOneAndUpdate\<close>: the first document that matches is replaced.\<close>

fun update_first :: "('a \<Rightarrow> bool) \<Rightarrow> ('a \<Rightarrow> 'a) \<Rightarrow> 'a list \<Rightarrow> 'a list" where
  "update_first p g [] = []"
| "update_first p g (y # ys) = (if p y then g y # ys else y # update_first p g ys)"

text \<open>Population of a reference: the first user with that id, \<open>null\<close> when there is none.\<close>

definition populate :: "store \<Rightarrow> oid \<Rightarrow> user_view option" where
  "populate st i =
     (case find (\<lambda>u. u_id u = i) (users st) of
        None \<Rightarrow> None
      | Some u \<Rightarrow> Some \<lparr>v_id = u_id u, v_username = u_username u,
                        v_firstName = u_firstName u, v_lastName = u_lastName u\<rparr>)"

text \<open>A task with \<open>assignedTo\<close> and \<open>createdBy\<close> populated.\<close>

record populated_task =
  pt_doc :: task
  pt_assignedTo :: "user_view option"
  pt_createdBy :: "user_view option"

definition populate_task :: "store \<Rightarrow> task \<Rightarrow> populated_task" where
  "populate_task st t =
     \<lparr>pt_doc = t,
      pt_assignedTo = (case t_assignedTo t of None \<Rightarrow> None | Some a \<Rightarrow> populate st a),
      pt_createdBy = populate st (t_createdBy t)\<rparr>"

section \<open>The task model: construction and validation\<close>

definition status_enum :: "string list" where
  "status_enum = [''todo'', ''in-progress'', ''review'', ''done'']"

definition priority_enum :: "string list" where
  "priority_enum = [''low'', ''medium'', ''high'', ''urgent'']"

text \<open>
  A request body for a task. Each property may be missing; \<open>dueDate\<close> may also be
  \<open>null\<close> (\<open>Some None\<close>). \<open>b_createdBy\<close> is an owner property submitted by the client.
  Properties of other schema paths are not part of the body type.
\<close>

record task_body =
  b_title :: "string option"
  b_description :: "string option"
  b_status :: "string option"
  b_priority :: "string option"
  b_dueDate :: "date option option"
  b_tags :: "string list option"
  b_assignedTo :: "string option"
  b_createdBy :: "string option"

text \<open>
  \<open>new Task(data)\<close> followed by the validation that \<open>save\<close> runs, from the schema of
  \<open>models/Task.js\<close>: casts, setters (\<open>trim\<close>), defaults, \<open>required\<close>, \<open>maxlength\<close> and
  \<open>enum\<close>. \<open>k\<close> is the number of documents the request has constructed before.
\<close>

definition cast_ref :: "ext \<Rightarrow> string option \<Rightarrow> thrown + oid option" where
  "cast_ref x v =
     (case v of
        None \<Rightarrow> Inr None
      | Some s \<Rightarrow> (case castObjectId x s of None \<Rightarrow> Inl CastError | Some i \<Rightarrow> Inr (Some i)))"

definition new_Task :: "ext \<Rightarrow> nat \<Rightarrow> task_body \<Rightarrow> thrown + task" where
  "new_Task x k d =
     (let title = map_option (strTrim x) (b_title d);
          description = map_option (strTrim x) (b_description d);
          status = (case b_status d of None \<Rightarrow> ''todo'' | Some s \<Rightarrow> s);
          priority = (case b_priority d of None \<Rightarrow> ''medium'' | Some p \<Rightarrow> p);
          dueDate = (case b_dueDate d of None \<Rightarrow> None | Some v \<Rightarrow> v);
          tags = (case b_tags d of None \<Rightarrow> [] | Some ts \<Rightarrow> map (strTrim x) ts)
      in case cast_ref x (b_assignedTo d) of
           Inl e \<Rightarrow> Inl e
         | Inr assignedTo \<Rightarrow>
        (case cast_ref x (b_createdBy d) of
           Inl e \<Rightarrow> Inl e
         | Inr None \<Rightarrow> Inl ValidationError
         | Inr (Some createdBy) \<Rightarrow>
        (case title of
           None \<Rightarrow> Inl ValidationError
         | Some ti \<Rightarrow>
             if ti = [] \<or> 200 < length ti then Inl ValidationError
             else if (case description of None \<Rightarrow> False | Some de \<Rightarrow> 2000 < length de)
               then Inl ValidationError
             else if status \<notin> set status_enum \<or> priority \<notin> set priority_enum
               then Inl ValidationError
             else Inr \<lparr>t_id = newObjectId x k, t_title = ti, t_description = description,
                       t_status = status, t_priority = priority, t_dueDate = dueDate,
                       t_tags = tags, t_assignedTo = assignedTo, t_createdBy = createdBy,
                       t_isDeleted = False, t_deletedAt = None,
                       t_createdAt = dateNow x, t_updatedAt = dateNow x\<rparr>)))"

text \<open>The insert of \<open>save\<close>: \<open>_id\<close> carries a unique index.\<close>

definition save_task :: "task \<Rightarrow> store \<Rightarrow> thrown + store" where
  "save_task t st =
     (if t_id t \<in> set (map t_id (tasks st)) then Inl DuplicateKey
      else Inr (st\<lparr>tasks := tasks st @ [t]\<rparr>))"

section \<open>Task controller\<close>

text \<open>\<open>createTask\<close> (\<open>taskController.js\<close>, lines 5-21).\<close>

definition createTask ::
  "ext \<Rightarrow> user \<Rightarrow> task_body \<Rightarrow> store \<Rightarrow> (error + populated_task) \<times> store" where
  "createTask x u body st =
     (let taskData = body\<lparr>b_createdBy := Some (u_id u)\<rparr> in
      if truthy_opt (b_assignedTo taskData)
         \<and> \<not> (case b_assignedTo taskData of None \<Rightarrow> False | Some a \<Rightarrow> isValid x a)
      then (Inl BadRequest, st)
      else case new_Task x 0 taskData of
             Inl e \<Rightarrow> (Inl ServerError, st)
           | Inr t \<Rightarrow>
               (case save_task t st of
                  Inl e \<Rightarrow> (Inl ServerError, st)
                | Inr st' \<Rightarrow> (Inr (populate_task st' t), st')))"

text \<open>
  The loop of \<open>bulkCreateTasks\<close> (lines 32-42): \<open>k\<close> tasks have been constructed,
  \<open>created\<close> is the array \<open>createdTasks\<close>.
\<close>

fun bulk_loop ::
  "ext \<Rightarrow> user \<Rightarrow> nat \<Rightarrow> task_body list \<Rightarrow> populated_task list \<Rightarrow> store
     \<Rightarrow> (error + populated_task list) \<times> store" where
  "bulk_loop x u k [] created st = (Inr created, st)"
| "bulk_loop x u k (taskData # rest) created st =
     (let data = taskData\<lparr>b_createdBy := Some (u_id u)\<rparr> in
      if truthy_opt (b_assignedTo data)
         \<and> \<not> (case b_assignedTo data of None \<Rightarrow> False | Some a \<Rightarrow> isValid x a)
      then (Inl BadRequest, st)
      else case new_Task x k data of
             Inl e \<Rightarrow> (Inl ServerError, st)
           | Inr t \<Rightarrow>
               (case save_task t st of
                  Inl e \<Rightarrow> (Inl ServerError, st)
                | Inr st' \<Rightarrow>
                    bulk_loop x u (Suc k) rest (created @ [populate_task st' t]) st'))"

text \<open>
  \<open>bulkCreateTasks\<close> (lines 24-50). The body property \<open>tasks\<close> is \<open>None\<close> when it is
  missing or not an array.
\<close>

definition bulkCreateTasks ::
  "ext \<Rightarrow> user \<Rightarrow> task_body list option \<Rightarrow> store
     \<Rightarrow> (error + populated_task list) \<times> store" where
  "bulkCreateTasks x u body st =
     (case body of
        None \<Rightarrow> (Inl BadRequest, st)
      | Some items \<Rightarrow>
          if length items = 0 then (Inl BadRequest, st)
          else bulk_loop x u 0 items [] st)"

text \<open>
  The filter object \<open>query\<close> that \<open>getTasks\<close> builds (lines 57-69): \<open>isDeleted\<close>, the
  equality conditions that were set, and the search term of the \<open>$or\<close> of three regular
  expression conditions.
\<close>

record task_filter =
  tf_isDeleted :: bool
  tf_status :: "string option"
  tf_priority :: "string option"
  tf_assignedTo :: "string option"
  tf_or :: "string option"

text \<open>The query string of \<open>GET /tasks\<close>.\<close>

record task_query =
  q_status :: "string option"
  q_priority :: "string option"
  q_assignedTo :: "string option"
  q_search :: "string option"
  q_page :: "int option"
  q_limit :: "int option"
  q_sortBy :: "string option"
  q_sortOrder :: "string option"

text \<open>\<open>if (v) query.field = v\<close>.\<close>

definition set_if_truthy :: "string option \<Rightarrow> string option" where
  "set_if_truthy v = (if truthy_opt v then v else None)"

definition build_query :: "task_query \<Rightarrow> task_filter" where
  "build_query q =
     \<lparr>tf_isDeleted = False,
      tf_status = set_if_truthy (q_status q),
      tf_priority = set_if_truthy (q_priority q),
      tf_assignedTo = set_if_truthy (q_assignedTo q),
      tf_or = set_if_truthy (q_search q)\<rparr>"

text \<open>
  The regular expression of the search term, with the option \<open>i\<close> as in
  \<open>{$regex: search, $options: 'i'}\<close> and \<open>new RegExp(search, 'i')\<close>; the constructor
  throws on a pattern that does not compile.
\<close>

definition compile_search :: "ext \<Rightarrow> string option \<Rightarrow> thrown + (string \<Rightarrow> bool) option" where
  "compile_search x v =
     (case v of
        None \<Rightarrow> Inr None
      | Some s \<Rightarrow>
          (case regex x s ''i'' of None \<Rightarrow> Inl SyntaxError | Some m \<Rightarrow> Inr (Some m)))"

text \<open>
  Whether a task document satisfies the filter, with the \<open>assignedTo\<close> condition cast
  and the search term compiled. A regular expression condition on a missing
  \<open>description\<close> is false; on the array \<open>tags\<close> it holds when some element matches.
\<close>

definition matches ::
  "task_filter \<Rightarrow> oid option \<Rightarrow> (string \<Rightarrow> bool) option \<Rightarrow> task \<Rightarrow> bool" where
  "matches query a m t =
     (t_isDeleted t = tf_isDeleted query
      \<and> (case tf_status query of None \<Rightarrow> True | Some s \<Rightarrow> t_status t = s)
      \<and> (case tf_priority query of None \<Rightarrow> True | Some p \<Rightarrow> t_priority t = p)
      \<and> (case a of None \<Rightarrow> True | Some i \<Rightarrow> t_assignedTo t = Some i)
      \<and> (case m of
            None \<Rightarrow> True
          | Some r \<Rightarrow>
              r (t_title t)
              \<or> (case t_description t of None \<Rightarrow> False | Some d \<Rightarrow> r d)
              \<or> list_ex r (t_tags t)))"

definition cast_filter :: "ext \<Rightarrow> task_filter \<Rightarrow> thrown + (task \<Rightarrow> bool)" where
  "cast_filter x query =
     (case compile_search x (tf_or query) of
        Inl e \<Rightarrow> Inl e
      | Inr m \<Rightarrow>
          (case cast_ref x (tf_assignedTo query) of
             Inl e \<Rightarrow> Inl e
           | Inr a \<Rightarrow> Inr (matches query a m)))"

text \<open>
  Sorting on one key. The database orders \<open>null\<close> (a missing field) before numbers and
  dates, and strings by their code units. Rows with equal keys are kept in natural
  order here, which is one of the orders the database may return.
\<close>

datatype sortkey = KNull | KNum int | KStr string

fun str_le :: "string \<Rightarrow> string \<Rightarrow> bool" where
  "str_le [] _ = True"
| "str_le (a # as) [] = False"
| "str_le (a # as) (b # bs) =
     (if a = b then str_le as bs else (of_char a :: nat) < of_char b)"

fun key_le :: "sortkey \<Rightarrow> sortkey \<Rightarrow> bool" where
  "key_le KNull _ = True"
| "key_le (KNum a) KNull = False"
| "key_le (KNum a) (KNum b) = (a \<le> b)"
| "key_le (KNum a) (KStr s) = True"
| "key_le (KStr s) (KStr t) = str_le s t"
| "key_le (KStr s) _ = False"

text \<open>
  The sort key of a task for a field name. The validator admits the four names below;
  a missing \<open>sortBy\<close> gives the name \<open>undefined\<close>, a field no document has.
\<close>

definition sort_key :: "string \<Rightarrow> task \<Rightarrow> sortkey" where
  "sort_key field t =
     (if field = ''createdAt'' then KNum (t_createdAt t)
      else if field = ''dueDate'' then (case t_dueDate t of None \<Rightarrow> KNull | Some d \<Rightarrow> KNum d)
      else if field = ''priority'' then KStr (t_priority t)
      else if field = ''status'' then KStr (t_status t)
      else KNull)"

fun insert_by :: "('a \<Rightarrow> 'a \<Rightarrow> bool) \<Rightarrow> 'a \<Rightarrow> 'a list \<Rightarrow> 'a list" where
  "insert_by le a [] = [a]"
| "insert_by le a (b # bs) = (if le a b then a # b # bs else b # insert_by le a bs)"

definition sort_by :: "('a \<Rightarrow> 'a \<Rightarrow> bool) \<Rightarrow> 'a list \<Rightarrow> 'a list" where
  "sort_by le xs = foldr (insert_by le) xs []"

text \<open>\<open>.sort({field: dir})\<close> with \<open>dir\<close> 1 (ascending) or -1 (descending).\<close>

definition sort_tasks :: "string \<Rightarrow> int \<Rightarrow> task list \<Rightarrow> task list" where
  "sort_tasks field dir ts =
     sort_by (\<lambda>a b. if dir = 1 then key_le (sort_key field a) (sort_key field b)
                     else key_le (sort_key field b) (sort_key field a)) ts"

text \<open>
  The window of a cursor: rows skipped and rows returned at most. A skip that is a
  non-negative integer and a limit that is a positive integer are served as they are.
\<close>

definition window :: "ext \<Rightarrow> jsnum \<Rightarrow> jsnum \<Rightarrow> thrown + (nat \<times> nat option)" where
  "window x skp lmt =
     (case (skp, lmt) of
        (Num s, Num l) \<Rightarrow>
          if 0 \<le> s \<and> 0 < l \<and> of_int \<lfloor>s\<rfloor> = s \<and> of_int \<lfloor>l\<rfloor> = l
          then Inr (nat \<lfloor>s\<rfloor>, Some (nat \<lfloor>l\<rfloor>))
          else oddWindow x skp lmt
      | _ \<Rightarrow> oddWindow x skp lmt)"

definition slice :: "nat \<times> nat option \<Rightarrow> 'a list \<Rightarrow> 'a list" where
  "slice w xs = (case snd w of None \<Rightarrow> drop (fst w) xs | Some l \<Rightarrow> take l (drop (fst w) xs))"

text \<open>\<open>Task.find(query).sort(sort).limit(lmt).skip(skp)\<close> and \<open>Task.countDocuments(query)\<close>.\<close>

definition Task_find ::
  "ext \<Rightarrow> task_filter \<Rightarrow> string \<Rightarrow> int \<Rightarrow> jsnum \<Rightarrow> jsnum \<Rightarrow> store \<Rightarrow> thrown + task list" where
  "Task_find x query field dir lmt skp st =
     (case cast_filter x query of
        Inl e \<Rightarrow> Inl e
      | Inr p \<Rightarrow>
          (case window x skp lmt of
             Inl e \<Rightarrow> Inl e
           | Inr w \<Rightarrow> Inr (slice w (sort_tasks field dir (filter p (tasks st))))))"

definition Task_countDocuments :: "ext \<Rightarrow> task_filter \<Rightarrow> store \<Rightarrow> thrown + nat" where
  "Task_countDocuments x query st =
     (case cast_filter x query of
        Inl e \<Rightarrow> Inl e
      | Inr p \<Rightarrow> Inr (length (filter p (tasks st))))"

text \<open>The answer of \<open>getTasks\<close>: the page of tasks and the \<open>pagination\<close> object.\<close>

record task_page =
  pg_tasks :: "populated_task list"
  pg_page :: jsnum
  pg_limit :: jsnum
  pg_total :: nat
  pg_pages :: jsnum

text \<open>The limit and the skip that \<open>getTasks\<close> hands to the cursor (lines 78-79).\<close>

definition cursor_limit :: "task_query \<Rightarrow> jsnum" where
  "cursor_limit q = js_mul (to_number (q_limit q)) (Num 1)"

definition cursor_skip :: "task_query \<Rightarrow> jsnum" where
  "cursor_skip q = js_mul (js_sub (to_number (q_page q)) (Num 1)) (to_number (q_limit q))"

text \<open>
  The sort object (lines 71-72): \<open>sort[sortBy] = sortOrder === 'desc' ? -1 : 1\<close>. A
  missing \<open>sortBy\<close> is the property name \<open>undefined\<close>.
\<close>

definition sortField :: "task_query \<Rightarrow> string" where
  "sortField q = (case q_sortBy q of None \<Rightarrow> ''undefined'' | Some s \<Rightarrow> s)"

definition sortDir :: "task_query \<Rightarrow> int" where
  "sortDir q = (if q_sortOrder q = Some ''desc'' then - 1 else 1)"

text \<open>\<open>getTasks\<close> (lines 53-97).\<close>

definition getTasks :: "ext \<Rightarrow> task_query \<Rightarrow> store \<Rightarrow> error + task_page" where
  "getTasks x q st =
     (let query = build_query q
      in case Task_find x query (sortField q) (sortDir q) (cursor_limit q) (cursor_skip q) st of
           Inl e \<Rightarrow> Inl ServerError
         | Inr found \<Rightarrow>
             (case Task_countDocuments x query st of
                Inl e \<Rightarrow> Inl ServerError
              | Inr totalDocs \<Rightarrow>
                  Inr \<lparr>pg_tasks = map (populate_task st) found,
                       pg_page = parseInt (q_page q),
                       pg_limit = parseInt (q_limit q),
                       pg_total = totalDocs,
                       pg_pages = js_ceil (js_div (Num (of_nat totalDocs)) (to_number (q_limit q)))\<rparr>))"

text \<open>\<open>getTaskById\<close> (lines 100-116).\<close>

definition getTaskById :: "ext \<Rightarrow> string \<Rightarrow> store \<Rightarrow> error + populated_task" where
  "getTaskById x tid st =
     (case castObjectId x tid of
        None \<Rightarrow> Inl ServerError
      | Some i \<Rightarrow>
          (case find (\<lambda>t. t_id t = i \<and> t_isDeleted t = False) (tasks st) of
             None \<Rightarrow> Inl NotFound
           | Some t \<Rightarrow> Inr (populate_task st t)))"

text \<open>
  The body of \<open>PUT /tasks/:id\<close>, with the properties the update schema admits. The
  handler puts the whole body under \<open>$set\<close>.
\<close>

record task_update =
  up_title :: "string option"
  up_description :: "string option"
  up_status :: "string option"
  up_priority :: "string option"
  up_dueDate :: "date option option"
  up_tags :: "string list option"
  up_assignedTo :: "string option"

text \<open>
  The cast of \<open>{$set: updateData}\<close> with \<open>runValidators\<close>: each property that is present
  is cast and validated as in the schema, and the result is the change of the document.
  \<open>timestamps\<close> sets \<open>updatedAt\<close>.
\<close>

definition cast_update :: "ext \<Rightarrow> task_update \<Rightarrow> thrown + (task \<Rightarrow> task)" where
  "cast_update x d =
     (let title = map_option (strTrim x) (up_title d);
          description = map_option (strTrim x) (up_description d)
      in case cast_ref x (up_assignedTo d) of
           Inl e \<Rightarrow> Inl e
         | Inr assignedTo \<Rightarrow>
             if (case title of None \<Rightarrow> False | Some ti \<Rightarrow> ti = [] \<or> 200 < length ti)
               then Inl ValidationError
             else if (case description of None \<Rightarrow> False | Some de \<Rightarrow> 2000 < length de)
               then Inl ValidationError
             else if (case up_status d of None \<Rightarrow> False | Some s \<Rightarrow> s \<notin> set status_enum)
               then Inl ValidationError
             else if (case up_priority d of None \<Rightarrow> False | Some p \<Rightarrow> p \<notin> set priority_enum)
               then Inl ValidationError
             else Inr (\<lambda>t. t\<lparr>
               t_title := (case title of None \<Rightarrow> t_title t | Some ti \<Rightarrow> ti),
               t_description := (case description of None \<Rightarrow> t_description t | Some de \<Rightarrow> Some de),
               t_status := (case up_status d of None \<Rightarrow> t_status t | Some s \<Rightarrow> s),
               t_priority := (case up_priority d of None \<Rightarrow> t_priority t | Some p \<Rightarrow> p),
               t_dueDate := (case up_dueDate d of None \<Rightarrow> t_dueDate t | Some v \<Rightarrow> v),
               t_tags := (case up_tags d of None \<Rightarrow> t_tags t | Some ts \<Rightarrow> map (strTrim x) ts),
               t_assignedTo := (case assignedTo of None \<Rightarrow> t_assignedTo t | Some a \<Rightarrow> Some a),
               t_updatedAt := dateNow x\<rparr>))"

text \<open>\<open>updateTask\<close> (lines 119-152). The identity of the request is not consulted.\<close>

definition updateTask ::
  "ext \<Rightarrow> user \<Rightarrow> string \<Rightarrow> task_update \<Rightarrow> store \<Rightarrow> (error + populated_task) \<times> store" where
  "updateTask x u taskId updateData st =
     (if \<not> isValid x taskId then (Inl BadRequest, st)
      else if truthy_opt (up_assignedTo updateData)
              \<and> \<not> (case up_assignedTo updateData of None \<Rightarrow> False | Some a \<Rightarrow> isValid x a)
        then (Inl BadRequest, st)
      else case castObjectId x taskId of
             None \<Rightarrow> (Inl ServerError, st)
           | Some i \<Rightarrow>
               (case cast_update x updateData of
                  Inl e \<Rightarrow> (Inl ServerError, st)
                | Inr change \<Rightarrow>
                    (case find (\<lambda>t. t_id t = i \<and> t_isDeleted t = False) (tasks st) of
                       None \<Rightarrow> (Inl NotFound, st)
                     | Some t \<Rightarrow>
                         (let st' = st\<lparr>tasks :=
                                 update_first (\<lambda>t. t_id t = i \<and> t_isDeleted t = False)
                                   change (tasks st)\<rparr>
                          in (Inr (populate_task st' (change t)), st')))))"

text \<open>
  \<open>deleteTask\<close> (lines 155-173): the soft delete. The identity of the request is not
  consulted. The answer carries a message only.
\<close>

definition deleteTask :: "ext \<Rightarrow> user \<Rightarrow> string \<Rightarrow> store \<Rightarrow> (error + unit) \<times> store" where
  "deleteTask x u tid st =
     (case castObjectId x tid of
        None \<Rightarrow> (Inl ServerError, st)
      | Some i \<Rightarrow>
          (case find (\<lambda>t. t_id t = i \<and> t_isDeleted t = False) (tasks st) of
             None \<Rightarrow> (Inl NotFound, st)
           | Some t \<Rightarrow>
               (Inr (),
                st\<lparr>tasks :=
                     update_first (\<lambda>t. t_id t = i \<and> t_isDeleted t = False)
                       (\<lambda>t. t\<lparr>t_isDeleted := True, t_deletedAt := Some (dateNow x),
                               t_updatedAt := dateNow x\<rparr>)
                       (tasks st)\<rparr>)))"

section \<open>Request validation\<close>


definition updateTaskSchema :: "task_update \<Rightarrow> task_update option" where
  "updateTaskSchema b =
     (if (case up_title b of None \<Rightarrow> True | Some ti \<Rightarrow> ti \<noteq> [] \<and> length ti \<le> 200)
         \<and> (case up_description b of None \<Rightarrow> True | Some de \<Rightarrow> length de \<le> 2000)
         \<and> (case up_status b of None \<Rightarrow> True | Some s \<Rightarrow> s \<in> set status_enum)
         \<and> (case up_priority b of None \<Rightarrow> True | Some p \<Rightarrow> p \<in> set priority_enum)
         \<and> (case up_tags b of None \<Rightarrow> True | Some ts \<Rightarrow> list_all (\<lambda>s. s \<noteq> []) ts)
         \<and> (case up_assignedTo b of None \<Rightarrow> True | Some a \<Rightarrow> a \<noteq> [])
      then Some b else None)"

definition taskQuerySchema :: "task_query \<Rightarrow> task_query option" where
  "taskQuerySchema q =
     (if (case q_status q of None \<Rightarrow> True | Some s \<Rightarrow> s \<in> set status_enum)
         \<and> (case q_priority q of None \<Rightarrow> True | Some p \<Rightarrow> p \<in> set priority_enum)
         \<and> (case q_assignedTo q of None \<Rightarrow> True | Some a \<Rightarrow> a \<noteq> [])
         \<and> (case q_search q of None \<Rightarrow> True | Some s \<Rightarrow> s \<noteq> [])
         \<and> (case q_page q of None \<Rightarrow> True | Some p \<Rightarrow> 1 \<le> p)
         \<and> (case q_limit q of None \<Rightarrow> True | Some l \<Rightarrow> 1 \<le> l \<and> l \<le> 100)
         \<and> (case q_sortBy q of
               None \<Rightarrow> True
             | Some f \<Rightarrow> f \<in> set [''createdAt'', ''dueDate'', ''priority'', ''status''])
         \<and> (case q_sortOrder q of None \<Rightarrow> True | Some d \<Rightarrow> d \<in> set [''asc'', ''desc''])
      then Some (q\<lparr>
             q_page := (case q_page q of None \<Rightarrow> Some 1 | Some p \<Rightarrow> Some p),
             q_limit := (case q_limit q of None \<Rightarrow> Some 10 | Some l \<Rightarrow> Some l),
             q_sortBy := (case q_sortBy q of None \<Rightarrow> Some ''createdAt'' | Some f \<Rightarrow> Some f),
             q_sortOrder := (case q_sortOrder q of None \<Rightarrow> Some ''desc'' | Some d \<Rightarrow> Some d)\<rparr>)
      else None)"

record comment_body =
  cb_content :: "string option"

definition commentSchema :: "comment_body \<Rightarrow> comment_body option" where
  "commentSchema b =
     (if (case cb_content b of None \<Rightarrow> False | Some c \<Rightarrow> c \<noteq> [] \<and> length c \<le> 1000)
      then Some b else None)"


definition validateQuery :: "('a \<Rightarrow> 'a option) \<Rightarrow> 'a \<Rightarrow> error + 'a" where
  "validateQuery schema query =
     (case schema query of None \<Rightarrow> Inl BadRequest | Some v \<Rightarrow> Inr query)"

text \<open>
  The route \<open>GET /tasks\<close>: \<open>validateQuery(taskQuerySchema)\<close>, then \<open>getTasks\<close> (the bearer
  check before them is outside the sources).
\<close>

definition route_getTasks :: "ext \<Rightarrow> task_query \<Rightarrow> store \<Rightarrow> error + task_page" where
  "route_getTasks x q st =
     (case validateQuery taskQuerySchema q of
        Inl e \<Rightarrow> Inl e
      | Inr q' \<Rightarrow> getTasks x q' st)"


section \<open>Comment controller\<close>

record populated_comment =
  pc_doc :: comment
  pc_author :: "user_view option"

definition populate_comment :: "store \<Rightarrow> comment \<Rightarrow> populated_comment" where
  "populate_comment st c = \<lparr>pc_doc = c, pc_author = populate st (c_author c)\<rparr>"

text \<open>The validation of \<open>content\<close> in \<open>models/Comment.js\<close>: trimmed, required, at most 1000.\<close>

definition cast_content :: "ext \<Rightarrow> string option \<Rightarrow> thrown + string" where
  "cast_content x v =
     (case map_option (strTrim x) v of
        None \<Rightarrow> Inl ValidationError
      | Some c \<Rightarrow> if c = [] \<or> 1000 < length c then Inl ValidationError else Inr c)"

definition save_comment :: "comment \<Rightarrow> store \<Rightarrow> thrown + store" where
  "save_comment c st =
     (if c_id c \<in> set (map c_id (comments st)) then Inl DuplicateKey
      else Inr (st\<lparr>comments := comments st @ [c]\<rparr>))"

text \<open>\<open>addComment\<close> (\<open>commentController.js\<close>, lines 5-29).\<close>

definition addComment ::
  "ext \<Rightarrow> user \<Rightarrow> string \<Rightarrow> comment_body \<Rightarrow> store \<Rightarrow> (error + populated_comment) \<times> store" where
  "addComment x u taskId body st =
     (case castObjectId x taskId of
        None \<Rightarrow> (Inl ServerError, st)
      | Some i \<Rightarrow>
          (case find (\<lambda>t. t_id t = i \<and> t_isDeleted t = False) (tasks st) of
             None \<Rightarrow> (Inl NotFound, st)
           | Some t \<Rightarrow>
               (case cast_content x (cb_content body) of
                  Inl e \<Rightarrow> (Inl ServerError, st)
                | Inr content \<Rightarrow>
                    (let c = \<lparr>c_id = newObjectId x 0, c_content = content, c_task = i,
                              c_author = u_id u, c_isDeleted = False, c_deletedAt = None,
                              c_createdAt = dateNow x, c_updatedAt = dateNow x\<rparr>
                     in case save_comment c st of
                          Inl e \<Rightarrow> (Inl ServerError, st)
                        | Inr st' \<Rightarrow> (Inr (populate_comment st' c), st')))))"

text \<open>\<open>getComments\<close> (lines 32-51): the comments of a task, oldest first.\<close>

definition getComments :: "ext \<Rightarrow> string \<Rightarrow> store \<Rightarrow> error + populated_comment list" where
  "getComments x taskId st =
     (case castObjectId x taskId of
        None \<Rightarrow> Inl ServerError
      | Some i \<Rightarrow>
          (case find (\<lambda>t. t_id t = i \<and> t_isDeleted t = False) (tasks st) of
             None \<Rightarrow> Inl NotFound
           | Some t \<Rightarrow>
               Inr (map (populate_comment st)
                     (sort_by (\<lambda>a b. c_createdAt a \<le> c_createdAt b)
                        (filter (\<lambda>c. c_task c = i \<and> c_isDeleted c = False) (comments st))))))"

text \<open>
  \<open>updateComment\<close> (lines 54-72): the filter names the author, so a comment of another
  identity is not found.
\<close>

definition updateComment ::
  "ext \<Rightarrow> user \<Rightarrow> string \<Rightarrow> comment_body \<Rightarrow> store \<Rightarrow> (error + populated_comment) \<times> store" where
  "updateComment x u cid body st =
     (case castObjectId x cid of
        None \<Rightarrow> (Inl ServerError, st)
      | Some i \<Rightarrow>
          (case (case cb_content body of
                   None \<Rightarrow> Inr (\<lambda>c. c\<lparr>c_updatedAt := dateNow x\<rparr>)
                 | Some v \<Rightarrow>
                     (case cast_content x (Some v) of
                        Inl e \<Rightarrow> Inl e
                      | Inr content \<Rightarrow>
                          Inr (\<lambda>c. c\<lparr>c_content := content, c_updatedAt := dateNow x\<rparr>))) of
             Inl e \<Rightarrow> (Inl ServerError, st)
           | Inr change \<Rightarrow>
               (case find (\<lambda>c. c_id c = i \<and> c_author c = u_id u \<and> c_isDeleted c = False)
                       (comments st) of
                  None \<Rightarrow> (Inl NotFound, st)
                | Some c \<Rightarrow>
                    (let st' = st\<lparr>comments :=
                            update_first
                              (\<lambda>c. c_id c = i \<and> c_author c = u_id u \<and> c_isDeleted c = False)
                              change (comments st)\<rparr>
                     in (Inr (populate_comment st' (change c)), st')))))"

text \<open>\<open>deleteComment\<close> (lines 75-90).\<close>

definition deleteComment :: "ext \<Rightarrow> user \<Rightarrow> string \<Rightarrow> store \<Rightarrow> (error + unit) \<times> store" where
  "deleteComment x u cid st =
     (case castObjectId x cid of
        None \<Rightarrow> (Inl ServerError, st)
      | Some i \<Rightarrow>
          (case find (\<lambda>c. c_id c = i \<and> c_author c = u_id u \<and> c_isDeleted c = False)
                  (comments st) of
             None \<Rightarrow> (Inl NotFound, st)
           | Some c \<Rightarrow>
               (Inr (),
                st\<lparr>comments :=
                     update_first
                       (\<lambda>c. c_id c = i \<and> c_author c = u_id u \<and> c_isDeleted c = False)
                       (\<lambda>c. c\<lparr>c_isDeleted := True, c_deletedAt := Some (dateNow x),
                               c_updatedAt := dateNow x\<rparr>)
                       (comments st)\<rparr>)))"

section \<open>File controller\<close>

text \<open>An element of \<open>req.files\<close>: what the upload middleware stored for one payload.\<close>

record upload =
  m_filename :: string
  m_originalname :: string
  m_mimetype :: string
  m_size :: nat
  m_path :: string

record populated_file =
  pf_doc :: file_meta
  pf_uploadedBy :: "user_view option"

definition populate_file :: "store \<Rightarrow> file_meta \<Rightarrow> populated_file" where
  "populate_file st f = \<lparr>pf_doc = f, pf_uploadedBy = populate st (f_uploadedBy f)\<rparr>"

text \<open>
  \<open>fileDoc.save()\<close>: the string paths of the schema are required, which the empty
  string does not satisfy; \<open>_id\<close> is unique.
\<close>

definition save_file :: "file_meta \<Rightarrow> store \<Rightarrow> thrown + store" where
  "save_file f st =
     (if f_filename f = [] \<or> f_originalName f = [] \<or> f_mimetype f = [] \<or> f_path f = []
        then Inl ValidationError
      else if f_id f \<in> set (map f_id (files st)) then Inl DuplicateKey
      else Inr (st\<lparr>files := files st @ [f]\<rparr>))"

text \<open>The loop of \<open>uploadFiles\<close> (lines 23-37).\<close>

fun upload_loop ::
  "ext \<Rightarrow> user \<Rightarrow> oid \<Rightarrow> nat \<Rightarrow> upload list \<Rightarrow> populated_file list \<Rightarrow> store
     \<Rightarrow> (error + populated_file list) \<times> store" where
  "upload_loop x u i k [] uploadedFiles st = (Inr uploadedFiles, st)"
| "upload_loop x u i k (m # rest) uploadedFiles st =
     (let fileDoc = \<lparr>f_id = newObjectId x k, f_filename = m_filename m,
                      f_originalName = m_originalname m, f_mimetype = m_mimetype m,
                      f_size = m_size m, f_path = m_path m, f_task = i,
                      f_uploadedBy = u_id u, f_isDeleted = False, f_deletedAt = None,
                      f_createdAt = dateNow x, f_updatedAt = dateNow x\<rparr>
      in case save_file fileDoc st of
           Inl e \<Rightarrow> (Inl ServerError, st)
         | Inr st' \<Rightarrow>
             upload_loop x u i (Suc k) rest (uploadedFiles @ [populate_file st' fileDoc]) st')"

text \<open>
  \<open>uploadFiles\<close> (\<open>fileController.js\<close>, lines 7-43); \<open>req.files\<close> is \<open>None\<close> when it is
  missing.
\<close>

definition uploadFiles ::
  "ext \<Rightarrow> user \<Rightarrow> string \<Rightarrow> upload list option \<Rightarrow> store
     \<Rightarrow> (error + populated_file list) \<times> store" where
  "uploadFiles x u taskId reqFiles st =
     (case castObjectId x taskId of
        None \<Rightarrow> (Inl ServerError, st)
      | Some i \<Rightarrow>
          (case find (\<lambda>t. t_id t = i \<and> t_isDeleted t = False) (tasks st) of
             None \<Rightarrow> (Inl NotFound, st)
           | Some t \<Rightarrow>
               (case reqFiles of
                  None \<Rightarrow> (Inl BadRequest, st)
                | Some ms \<Rightarrow>
                    if length ms = 0 then (Inl BadRequest, st)
                    else upload_loop x u i 0 ms [] st)))"

text \<open>What \<open>downloadFile\<close> streams: the headers and the path that is read.\<close>

record download =
  d_contentType :: string
  d_filename :: string
  d_path :: string

text \<open>
  \<open>downloadFile\<close> (lines 46-74). \<open>populate('task')\<close> looks the parent up by id whether
  it is deleted or not; when there is none, \<open>file.task\<close> is \<open>null\<close> and reading
  \<open>createdBy\<close> of it throws.
\<close>

definition downloadFile :: "ext \<Rightarrow> user \<Rightarrow> string \<Rightarrow> store \<Rightarrow> error + download" where
  "downloadFile x u fid st =
     (case castObjectId x fid of
        None \<Rightarrow> Inl ServerError
      | Some i \<Rightarrow>
          (case find (\<lambda>f. f_id f = i \<and> f_isDeleted f = False) (files st) of
             None \<Rightarrow> Inl NotFound
           | Some f \<Rightarrow>
               (case find (\<lambda>t. t_id t = f_task f) (tasks st) of
                  None \<Rightarrow> Inl ServerError
                | Some t \<Rightarrow>
                    if t_createdBy t \<noteq> u_id u \<and> t_assignedTo t \<noteq> Some (u_id u)
                      then Inl Forbidden
                    else if f_path f \<notin> set (disk st) then Inl NotFound
                    else Inr \<lparr>d_contentType = f_mimetype f, d_filename = f_originalName f,
                              d_path = f_path f\<rparr>)))"

text \<open>\<open>getFilesForTask\<close> (lines 77-95): the files of a task, newest first.\<close>

definition getFilesForTask :: "ext \<Rightarrow> string \<Rightarrow> store \<Rightarrow> error + populated_file list" where
  "getFilesForTask x taskId st =
     (case castObjectId x taskId of
        None \<Rightarrow> Inl ServerError
      | Some i \<Rightarrow>
          (case find (\<lambda>t. t_id t = i \<and> t_isDeleted t = False) (tasks st) of
             None \<Rightarrow> Inl NotFound
           | Some t \<Rightarrow>
               Inr (map (populate_file st)
                     (sort_by (\<lambda>a b. f_createdAt b \<le> f_createdAt a)
                        (filter (\<lambda>f. f_task f = i \<and> f_isDeleted f = False) (files st))))))"

text \<open>
  \<open>deleteFile\<close> (lines 98-127). The second operand of \<open>&&\<close> reads \<open>file.task.createdBy\<close>
  and is evaluated only when the identity is not the uploader. \<open>file.save()\<close> writes the
  document with that \<open>_id\<close>; the removal from disk follows it, inside the same \<open>try\<close>.
\<close>

definition deleteFile :: "ext \<Rightarrow> user \<Rightarrow> string \<Rightarrow> store \<Rightarrow> (error + unit) \<times> store" where
  "deleteFile x u fid st =
     (case castObjectId x fid of
        None \<Rightarrow> (Inl ServerError, st)
      | Some i \<Rightarrow>
          (case find (\<lambda>f. f_id f = i \<and> f_isDeleted f = False) (files st) of
             None \<Rightarrow> (Inl NotFound, st)
           | Some f \<Rightarrow>
               (case (if f_uploadedBy f \<noteq> u_id u
                      then (case find (\<lambda>t. t_id t = f_task f) (tasks st) of
                              None \<Rightarrow> Inl TypeError
                            | Some t \<Rightarrow> Inr (t_createdBy t \<noteq> u_id u))
                      else Inr False) of
                  Inl e \<Rightarrow> (Inl ServerError, st)
                | Inr denied \<Rightarrow>
                    if denied then (Inl Forbidden, st)
                    else
                      (let st' = st\<lparr>files :=
                              update_first (\<lambda>g. f_id g = f_id f)
                                (\<lambda>g. g\<lparr>f_isDeleted := True, f_deletedAt := Some (dateNow x),
                                        f_updatedAt := dateNow x\<rparr>)
                                (files st)\<rparr>
                       in if f_path f \<in> set (disk st')
                          then (if unlinkOk x (f_path f)
                                then (Inr (), st'\<lparr>disk := removeAll (f_path f) (disk st')\<rparr>)
                                else (Inl ServerError, st'))
                          else (Inr (), st')))))"

section \<open>Analytics controller\<close>

text \<open>\<open>{$group: {_id: key, count: {$sum: 1}}}\<close>: one row for each key, with its count.\<close>

fun bump :: "'k \<Rightarrow> ('k \<times> nat) list \<Rightarrow> ('k \<times> nat) list" where
  "bump k [] = [(k, 1)]"
| "bump k ((k', c) # r) = (if k = k' then (k', Suc c) # r else (k', c) # bump k r)"

definition group_count :: "'k list \<Rightarrow> ('k \<times> nat) list" where
  "group_count ks = foldr bump ks []"

record overview =
  totalTasks :: nat
  completedTasks :: nat
  pendingTasks :: nat
  inProgressTasks :: nat
  overdueTasks :: nat

text \<open>\<open>map[key] || 0\<close> on the object that the \<open>reduce\<close> builds.\<close>

definition or_zero :: "nat option \<Rightarrow> nat" where
  "or_zero v = (case v of None \<Rightarrow> 0 | Some c \<Rightarrow> if c = 0 then 0 else c)"

text \<open>
  \<open>getOverview\<close> (the analytics controller, lines 5-44). The counts by priority are
  computed by the source and not used.
\<close>

definition getOverview :: "ext \<Rightarrow> store \<Rightarrow> overview" where
  "getOverview x st =
     (let matched = filter (\<lambda>t. t_isDeleted t = False) (tasks st);
          statusStats = group_count (map t_status matched);
          priorityStats = group_count (map t_priority matched);
          overdue = length (filter (\<lambda>t. t_isDeleted t = False
                       \<and> (case t_dueDate t of None \<Rightarrow> False | Some d \<Rightarrow> d < dateNow x)
                       \<and> t_status t \<noteq> ''done'') (tasks st));
          statusMap = foldl (\<lambda>acc stat. acc(fst stat \<mapsto> snd stat)) Map.empty statusStats
      in \<lparr>totalTasks = foldl (\<lambda>sum stat. sum + snd stat) 0 statusStats,
          completedTasks = or_zero (statusMap ''done''),
          pendingTasks = or_zero (statusMap ''todo''),
          inProgressTasks = or_zero (statusMap ''in-progress''),
          overdueTasks = overdue\<rparr>)"

record performance =
  pr_userId :: oid
  pr_username :: string
  pr_totalTasks :: nat
  pr_completedTasks :: nat
  pr_completionRate :: jsnum
  pr_averageCompletionTime :: jsnum

text \<open>
  The aggregation of lines 68-81: the durations of the matching tasks, and the one group
  with their average, a double; no row when nothing matches.
\<close>

definition avg_duration :: "ext \<Rightarrow> oid \<Rightarrow> store \<Rightarrow> jsnum list" where
  "avg_duration x uid st =
     (let durations = map (\<lambda>t. t_updatedAt t - t_createdAt t)
                        (filter (\<lambda>t. t_assignedTo t = Some uid \<and> t_status t = ''done''
                                     \<and> t_isDeleted t = False) (tasks st))
      in if durations = [] then []
         else [dbl x (js_div (Num (of_int (sum_list durations)))
                        (Num (of_nat (length durations))))])"

text \<open>
  The row of one user (lines 53-91); the count of created tasks is not used. Line 88
  divides only when a task is assigned, where 0 / 0 would be \<open>NaN\<close>, and line 89 reads
  the first row of the aggregation only when there is one.
\<close>

definition performance_row :: "ext \<Rightarrow> store \<Rightarrow> user \<Rightarrow> performance" where
  "performance_row x st u =
     (let createdTasks = length (filter (\<lambda>t. t_createdBy t = u_id u \<and> t_isDeleted t = False)
                                   (tasks st));
          assignedTasks = length (filter (\<lambda>t. t_assignedTo t = Some (u_id u)
                                               \<and> t_isDeleted t = False) (tasks st));
          completed = length (filter (\<lambda>t. t_assignedTo t = Some (u_id u)
                                           \<and> t_status t = ''done''
                                           \<and> t_isDeleted t = False) (tasks st));
          avgCompletionTime = avg_duration x (u_id u) st
      in \<lparr>pr_userId = u_id u,
          pr_username = u_username u,
          pr_totalTasks = assignedTasks,
          pr_completedTasks = completed,
          pr_completionRate =
            (if assignedTasks > 0
             then dbl x (js_mul (dbl x (js_div (Num (of_nat completed))
                                            (Num (of_nat assignedTasks))))
                           (Num 100))
             else Num 0),
          pr_averageCompletionTime =
            (if length avgCompletionTime > 0
             then dbl x (js_div (avgCompletionTime ! 0) (Num (1000 * 60 * 60 * 24)))
             else Num 0)\<rparr>)"

text \<open>\<open>getPerformance\<close> (lines 47-98): \<open>User.find({})\<close> and one row for each user.\<close>

definition getPerformance :: "ext \<Rightarrow> store \<Rightarrow> performance list" where
  "getPerformance x st = map (performance_row x st) (users st)"

text \<open>
  The tasks that \<open>exportTasks\<close> selects (lines 145-156), newest first; their rendering
  as JSON or CSV is not modelled.
\<close>

definition exportTasks :: "user \<Rightarrow> store \<Rightarrow> populated_task list" where
  "exportTasks u st =
     (let userId = u_id u;
          isAdmin = (u_role u = ''admin'');
          matchFilter =
            (if isAdmin then (\<lambda>t. t_isDeleted t = False)
             else (\<lambda>t. t_isDeleted t = False
                        \<and> (t_createdBy t = userId \<or> t_assignedTo t = Some userId)))
      in map (populate_task st)
           (sort_by (\<lambda>a b. t_createdAt b \<le> t_createdAt a) (filter matchFilter (tasks st))))"

section \<open>The claims in the words of the specification\<close>

text \<open>
  A text contains a term without regard to case: here the case of the letters A to Z.
\<close>

definition lower :: "char \<Rightarrow> char" where
  "lower c =
     (case map_of (zip ''ABCDEFGHIJKLMNOPQRSTUVWXYZ'' ''abcdefghijklmnopqrstuvwxyz'') c of
        None \<Rightarrow> c
      | Some d \<Rightarrow> d)"






text \<open>
  The performance figures of one identity, as the specification words them: the
  non-deleted tasks assigned to it, those of them that are done, the completion rate
  done / assigned * 100, which is 0 when nothing is assigned, and the mean of
  \<open>updatedAt - createdAt\<close> over the done tasks in days, which is 0 when none is done.
  Each quotient and product is the double of its exact value.
\<close>

definition spec_assigned :: "store \<Rightarrow> oid \<Rightarrow> task list" where
  "spec_assigned st uid =
     filter (\<lambda>t. \<not> t_isDeleted t \<and> t_assignedTo t = Some uid) (tasks st)"

definition spec_completed :: "store \<Rightarrow> oid \<Rightarrow> task list" where
  "spec_completed st uid = filter (\<lambda>t. t_status t = ''done'') (spec_assigned st uid)"

definition spec_rate :: "ext \<Rightarrow> store \<Rightarrow> oid \<Rightarrow> jsnum" where
  "spec_rate x st uid =
     (if spec_assigned st uid = [] then Num 0
      else Num (fl x (fl x (of_nat (length (spec_completed st uid))
                            / of_nat (length (spec_assigned st uid))) * 100)))"

definition ms_per_day :: rat where
  "ms_per_day = 86400000"

definition spec_cycle_days :: "ext \<Rightarrow> store \<Rightarrow> oid \<Rightarrow> jsnum" where
  "spec_cycle_days x st uid =
     (if spec_completed st uid = [] then Num 0
      else Num (fl x (fl x (of_int (\<Sum>t \<leftarrow> spec_completed st uid. t_updatedAt t - t_createdAt t)
                            / of_nat (length (spec_completed st uid))) / ms_per_day)))"

section \<open>A sample environment and sample data\<close>

text \<open>
  Concrete collaborators for the instances below. Identifiers are the strings of two or
  more characters. The regular expression engine is a fragment of the real one: the
  pattern \<open>(\<close> does not compile; in any other pattern a dot stands for any character and
  every other character for itself, and the option \<open>i\<close> disregards the case of the
  letters A to Z. That is what the engine does for patterns of letters, digits, spaces
  and dots on texts of one line. \<open>trim\<close> strips the white space characters of ASCII, as
  it does on ASCII texts; the figures of the sample are doubles, so rounding leaves them
  as they are; an odd skip or limit makes the database throw.
\<close>

fun dot_prefix :: "string \<Rightarrow> string \<Rightarrow> bool" where
  "dot_prefix [] _ = True"
| "dot_prefix (p # ps) [] = False"
| "dot_prefix (p # ps) (c # cs) = ((p = CHR ''.'' \<or> p = c) \<and> dot_prefix ps cs)"

fun dot_search :: "string \<Rightarrow> string \<Rightarrow> bool" where
  "dot_search p [] = (p = [])"
| "dot_search p (c # cs) = (dot_prefix p (c # cs) \<or> dot_search p cs)"

definition sample_regex :: "string \<Rightarrow> string \<Rightarrow> (string \<Rightarrow> bool) option" where
  "sample_regex p opts =
     (if p = ''('' then None
      else if CHR ''i'' \<in> set opts
        then Some (\<lambda>txt. dot_search (map lower p) (map lower txt))
      else Some (\<lambda>txt. dot_search p txt))"

definition ascii_space :: "char \<Rightarrow> bool" where
  "ascii_space c = (c = CHR '' '' \<or> c = CHR 0x09 \<or> c = CHR 0x0A \<or> c = CHR 0x0B
                    \<or> c = CHR 0x0C \<or> c = CHR 0x0D)"

definition ascii_trim :: "string \<Rightarrow> string" where
  "ascii_trim s = rev (dropWhile ascii_space (rev (dropWhile ascii_space s)))"

definition sample_ext :: ext where
  "sample_ext =
     \<lparr>isValid = (\<lambda>s. 2 \<le> length s),
      castObjectId = (\<lambda>s. if 2 \<le> length s then Some s else None),
      regex = sample_regex,
      strTrim = ascii_trim,
      fl = (\<lambda>a. a),
      newObjectId = (\<lambda>k. ''n'' @ replicate (Suc k) (CHR ''x'')),
      dateNow = 1000,
      oddWindow = (\<lambda>skp lmt. Inl CastError),
      unlinkOk = (\<lambda>p. True)\<rparr>"

definition alice :: user where
  "alice = \<lparr>u_id = ''u1'', u_username = ''alice'', u_firstName = ''Alice'',
            u_lastName = ''A'', u_role = ''user''\<rparr>"

definition bob :: user where
  "bob = \<lparr>u_id = ''u2'', u_username = ''bob'', u_firstName = ''Bob'',
          u_lastName = ''B'', u_role = ''user''\<rparr>"

definition carol :: user where
  "carol = \<lparr>u_id = ''u3'', u_username = ''carol'', u_firstName = ''Carol'',
            u_lastName = ''C'', u_role = ''admin''\<rparr>"

definition mk_task ::
  "oid \<Rightarrow> string \<Rightarrow> string \<Rightarrow> string \<Rightarrow> date option \<Rightarrow> string list \<Rightarrow> oid option \<Rightarrow> oid
     \<Rightarrow> bool \<Rightarrow> date \<Rightarrow> date \<Rightarrow> task" where
  "mk_task i ti s p due tg a c del cr up =
     \<lparr>t_id = i, t_title = ti, t_description = None, t_status = s, t_priority = p,
      t_dueDate = due, t_tags = tg, t_assignedTo = a, t_createdBy = c, t_isDeleted = del,
      t_deletedAt = (if del then Some up else None), t_createdAt = cr, t_updatedAt = up\<rparr>"

definition sample_tasks :: "task list" where
  "sample_tasks =
     [mk_task ''t1'' ''Write report'' ''todo'' ''medium'' (Some 500) [''Docs''] (Some ''u2'') ''u1''
        False 100 100,
      mk_task ''t2'' ''Fix login'' ''done'' ''high'' (Some 400) [''bug''] (Some ''u2'') ''u1''
        False 200 86400200,
      mk_task ''t3'' ''Review docs'' ''in-progress'' ''low'' None [] None ''u2''
        False 300 300,
      mk_task ''t4'' ''Old report'' ''todo'' ''low'' (Some 100) [] (Some ''u2'') ''u1''
        True 50 60]"

definition sample_comment :: comment where
  "sample_comment =
     \<lparr>c_id = ''c1'', c_content = ''hi'', c_task = ''t1'', c_author = ''u1'',
      c_isDeleted = False, c_deletedAt = None, c_createdAt = 150, c_updatedAt = 150\<rparr>"

definition sample_file :: file_meta where
  "sample_file =
     \<lparr>f_id = ''f1'', f_filename = ''a1.txt'', f_originalName = ''notes.txt'',
      f_mimetype = ''text/plain'', f_size = 12, f_path = ''uploads/a1.txt'', f_task = ''t3'',
      f_uploadedBy = ''u1'', f_isDeleted = False, f_deletedAt = None,
      f_createdAt = 350, f_updatedAt = 350\<rparr>"

definition sample_store :: store where
  "sample_store =
     \<lparr>tasks = sample_tasks, comments = [sample_comment], files = [sample_file],
      users = [alice, bob, carol], disk = [''uploads/a1.txt'']\<rparr>"

definition no_filter :: task_query where
  "no_filter =
     \<lparr>q_status = None, q_priority = None, q_assignedTo = None, q_search = None,
      q_page = None, q_limit = None, q_sortBy = None, q_sortOrder = None\<rparr>"

definition mk_body :: "string \<Rightarrow> string option \<Rightarrow> string option \<Rightarrow> task_body" where
  "mk_body ti a owner =
     \<lparr>b_title = Some ti, b_description = None, b_status = None, b_priority = None,
      b_dueDate = None, b_tags = None, b_assignedTo = a, b_createdBy = owner\<rparr>"

section \<open>Evaluation of the sample data\<close>

lemmas sample_defs = sample_ext_def sample_store_def sample_tasks_def mk_task_def
  sample_comment_def sample_file_def alice_def bob_def carol_def mk_body_def


lemmas eval_defs = createTask_def new_Task_def cast_ref_def save_task_def Let_def
  truthy_opt_def truthy_def ascii_trim_def ascii_space_def status_enum_def priority_enum_def
  bulkCreateTasks_def addComment_def cast_content_def save_comment_def
  uploadFiles_def save_file_def

section \<open>Owner stamping on creation\<close>




lemma save_task_tasks: "save_task t st = Inr st' \<Longrightarrow> tasks st' = tasks st @ [t]"
  by (auto simp: save_task_def split: if_splits)

lemma save_task_users: "save_task t st = Inr st' \<Longrightarrow> users st' = users st"
  by (auto simp: save_task_def split: if_splits)




lemma save_comment_comments:
  "save_comment c st = Inr st' \<Longrightarrow> comments st' = comments st @ [c]"
  by (auto simp: save_comment_def split: if_splits)





section \<open>Bulk creation is not atomic\<close>

lemma bulk_loop_append:
  "bulk_loop x u k (xs @ ys) created st =
     (case bulk_loop x u k xs created st of
        (Inr c, st1) \<Rightarrow> bulk_loop x u (k + length xs) ys c st1
      | (Inl e, st1) \<Rightarrow> (Inl e, st1))"
  by (induction xs arbitrary: k created st) (auto simp: Let_def split: sum.splits prod.splits)

lemma bulk_loop_inserted:
  "bulk_loop x u k items created st = (Inr rs, st')
     \<Longrightarrow> \<exists>new. rs = created @ new \<and> tasks st' = tasks st @ map pt_doc new
               \<and> length new = length items
               \<and> map (t_id \<circ> pt_doc) new = map (newObjectId x) [k ..< k + length items]"
proof (induction items arbitrary: k created st)
  case Nil
  then show ?case by simp
next
  case (Cons d items)
  let ?data = "d\<lparr>b_createdBy := Some (u_id u)\<rparr>"
  from Cons.prems obtain t st1 where
    t: "new_Task x k ?data = Inr t" and s: "save_task t st = Inr st1"
    and rest: "bulk_loop x u (Suc k) items (created @ [populate_task st1 t]) st1 = (Inr rs, st')"
    by (auto simp: Let_def split: if_splits sum.splits)
  have tid: "t_id t = newObjectId x k"
    using t by (auto simp: new_Task_def Let_def split: sum.splits option.splits if_splits)
  have tk: "tasks st1 = tasks st @ [t]" using save_task_tasks[OF s] .
  from Cons.IH[OF rest] obtain new where
    n: "rs = (created @ [populate_task st1 t]) @ new"
       "tasks st' = tasks st1 @ map pt_doc new" "length new = length items"
       "map (t_id \<circ> pt_doc) new = map (newObjectId x) [Suc k ..< Suc k + length items]"
    by blast
  have "k < k + length (d # items)" by simp
  from upt_conv_Cons[OF this]
  have "[k ..< k + length (d # items)] = k # [Suc k ..< k + length (d # items)]" .
  moreover have "k + length (d # items) = Suc k + length items" by simp
  ultimately have E: "[k ..< k + length (d # items)] = k # [Suc k ..< Suc k + length items]"
    by (simp only:)
  have ids: "map (t_id \<circ> pt_doc) (populate_task st1 t # new)
               = map (newObjectId x) [k ..< k + length (d # items)]"
    unfolding E using n(4) tid by (simp add: populate_task_def del: upt_Suc)
  have "rs = created @ (populate_task st1 t # new)" using n(1) by simp
  moreover have "tasks st' = tasks st @ map pt_doc (populate_task st1 t # new)"
    using n(2) tk by (simp add: populate_task_def)
  moreover have "length (populate_task st1 t # new) = length (d # items)"
    using n(3) by simp
  ultimately show ?case using ids by blast
qed

lemma bulk_step_fails:
  "bulk_loop x u k [bad] created st = (Inl e, st2) \<Longrightarrow> st2 = st
     \<and> bulk_loop x u k (bad # rest) created st = (Inl e, st)"
  by (auto simp: Let_def split: if_splits sum.splits)

text \<open>
  Claim C7. \<open>bulkCreateTasks\<close> inserts the submitted tasks one after the other, in the
  order of the array, and does not roll back: when the tasks \<open>good\<close> at the front of the
  array have been inserted and the next task \<open>bad\<close> makes the request fail (for example
  by an \<open>assignedTo\<close> that is not a valid id, which is answered 400), the request fails
  and the store it leaves is the one holding the tasks inserted for \<open>good\<close>.
\<close>

theorem bulk_not_atomic:
  assumes "bulk_loop x u 0 good [] st = (Inr rs, st1)"
  shows "tasks st1 = tasks st @ map pt_doc rs \<and> length rs = length good
         \<and> map (t_id \<circ> pt_doc) rs = map (newObjectId x) [0 ..< length good]
         \<and> (b_assignedTo bad = Some a \<and> a \<noteq> [] \<and> \<not> isValid x a \<longrightarrow>
              bulkCreateTasks x u (Some (good @ bad # rest)) st = (Inl BadRequest, st1))
         \<and> (bulk_loop x u (length good) [bad] rs st1 = (Inl e, st2) \<longrightarrow>
              bulkCreateTasks x u (Some (good @ bad # rest)) st = (Inl e, st1))"
proof -
  from bulk_loop_inserted[OF assms] have ins:
    "tasks st1 = tasks st @ map pt_doc rs" "length rs = length good"
    "map (t_id \<circ> pt_doc) rs = map (newObjectId x) [0 ..< length good]"
    by auto
  have run: "bulkCreateTasks x u (Some (good @ bad # rest)) st
               = bulk_loop x u (length good) (bad # rest) rs st1"
    using assms by (simp add: bulkCreateTasks_def bulk_loop_append)
  have inv: "b_assignedTo bad = Some a \<and> a \<noteq> [] \<and> \<not> isValid x a \<longrightarrow>
        bulk_loop x u (length good) (bad # rest) rs st1 = (Inl BadRequest, st1)"
    by (simp add: Let_def truthy_opt_def truthy_def)
  have gen: "bulk_loop x u (length good) [bad] rs st1 = (Inl e, st2) \<longrightarrow>
        bulk_loop x u (length good) (bad # rest) rs st1 = (Inl e, st1)"
    using bulk_step_fails by blast
  show ?thesis using ins run inv gen by simp
qed

theorem bulk_not_atomic_witness:
  "(\<exists>rs st1. bulk_loop sample_ext bob 0 [mk_body ''Plan'' None None, mk_body ''Ship'' None None]
                [] sample_store = (Inr rs, st1)
      \<and> bulkCreateTasks sample_ext bob
          (Some ([mk_body ''Plan'' None None, mk_body ''Ship'' None None]
                 @ mk_body ''Test'' (Some ''?'') None # [mk_body ''Done'' None None]))
          sample_store = (Inl BadRequest, st1)
      \<and> map t_id (tasks st1) = map t_id (tasks sample_store) @ [''nx'', ''nxx''])"
proof -
  obtain rs st1 where e:
    "bulk_loop sample_ext bob 0 [mk_body ''Plan'' None None, mk_body ''Ship'' None None]
       [] sample_store = (Inr rs, st1)"
    by (simp add: eval_defs sample_defs)
  have inv: "b_assignedTo (mk_body ''Test'' (Some ''?'') None) = Some ''?'' \<and> ''?'' \<noteq> []
             \<and> \<not> isValid sample_ext ''?''"
    by (simp add: sample_defs)
  note t = bulk_not_atomic[OF e, where bad = "mk_body ''Test'' (Some ''?'') None" and a = "''?''"
      and rest = "[mk_body ''Done'' None None]"]
  have ids: "map (newObjectId sample_ext) [0 ..< length [mk_body ''Plan'' None None, mk_body ''Ship'' None None]]
       = [''nx'', ''nxx'']"
    by (simp add: sample_defs upt_conv_Cons)
  have "map t_id (tasks st1) = map t_id (tasks sample_store) @ [''nx'', ''nxx'']"
    using t ids by simp
  with e t inv show ?thesis by blast
qed

section \<open>The task list query\<close>

lemma set_insert_by: "set (insert_by le a xs) = insert a (set xs)"
  by (induction xs) auto

lemma length_insert_by: "length (insert_by le a xs) = Suc (length xs)"
  by (induction xs) auto

lemma set_sort_by: "set (sort_by le xs) = set xs"
  by (induction xs) (auto simp: sort_by_def set_insert_by)

lemma length_sort_by: "length (sort_by le xs) = length xs"
  by (induction xs) (auto simp: sort_by_def length_insert_by)

lemma set_sort_tasks: "set (sort_tasks f d ts) = set ts"
  by (simp add: sort_tasks_def set_sort_by)

lemma length_sort_tasks: "length (sort_tasks f d ts) = length ts"
  by (simp add: sort_tasks_def length_sort_by)

lemma set_slice: "set (slice w xs) \<subseteq> set xs"
  by (auto simp: slice_def split: option.splits dest: in_set_takeD in_set_dropD)

lemma pt_doc_populate: "map pt_doc (map (populate_task st) ts) = ts"
  by (induction ts) (auto simp: populate_task_def)

lemma getTasks_ok:
  assumes "cast_filter x (build_query q) = Inr P"
    and "window x (cursor_skip q) (cursor_limit q) = Inr w"
  shows "getTasks x q st =
           Inr \<lparr>pg_tasks = map (populate_task st)
                    (slice w (sort_tasks (sortField q) (sortDir q) (filter P (tasks st)))),
                pg_page = parseInt (q_page q), pg_limit = parseInt (q_limit q),
                pg_total = length (filter P (tasks st)),
                pg_pages = js_ceil (js_div (Num (of_nat (length (filter P (tasks st)))))
                                      (to_number (q_limit q)))\<rparr>"
  using assms
  by (simp add: getTasks_def Task_find_def Task_countDocuments_def)

lemma getTasks_Inr:
  assumes "getTasks x q st = Inr r"
  shows "\<exists>P w. cast_filter x (build_query q) = Inr P
           \<and> window x (cursor_skip q) (cursor_limit q) = Inr w"
  using assms
  by (auto simp: getTasks_def Task_find_def Task_countDocuments_def Let_def split: sum.splits)









lemma pt_doc_populate_o: "map (pt_doc \<circ> populate_task st) ts = ts"
  by (induction ts) (auto simp: populate_task_def)

lemma ceil_div_int:
  assumes "0 < (l::int)"
  shows "\<lceil>(of_int k :: rat) / of_int l\<rceil> = (k + l - 1) div l"
proof -
  let ?a = "k + l - 1"
  have "- k = l * (- (?a div l)) + (l - 1 - ?a mod l)"
  proof -
    have "l * (?a div l) + ?a mod l = ?a" by simp
    then show ?thesis by (simp add: algebra_simps)
  qed
  moreover have "0 \<le> l - 1 - ?a mod l"
    using pos_mod_bound[OF assms, of ?a] by simp
  moreover have "l - 1 - ?a mod l < l"
    using pos_mod_sign[OF assms, of ?a] by simp
  ultimately have "(- k) div l = - (?a div l)"
    by (rule int_div_pos_eq)
  then show ?thesis by (simp add: ceiling_divide_eq_div)
qed

lemma beyond_last:
  assumes "1 \<le> (l::int)" and "\<lceil>(of_nat n :: rat) / of_int l\<rceil> < p"
  shows "n \<le> nat ((p - 1) * l)"
proof -
  have "(of_nat n :: rat) / of_int l \<le> of_int \<lceil>(of_nat n :: rat) / of_int l\<rceil>"
    by (rule le_of_int_ceiling)
  also have "\<dots> \<le> of_int (p - 1)" using assms(2) by simp
  finally have "(of_nat n :: rat) \<le> of_int (p - 1) * of_int l"
    using assms(1) by (simp add: pos_divide_le_eq)
  then have "(of_int (int n) :: rat) \<le> of_int ((p - 1) * l)" by simp
  then have "int n \<le> (p - 1) * l" by (simp only: of_int_le_iff)
  then show ?thesis by simp
qed

lemma window_page:
  assumes "q_page q = Some p" "q_limit q = Some l" "1 \<le> p" "1 \<le> l"
  shows "window x (cursor_skip q) (cursor_limit q) = Inr (nat ((p - 1) * l), Some (nat l))"
proof -
  have s: "cursor_skip q = Num (of_int ((p - 1) * l))"
    using assms by (simp add: cursor_skip_def to_number_def)
  have l: "cursor_limit q = Num (of_int l)"
    using assms by (simp add: cursor_limit_def to_number_def)
  have "0 \<le> (p - 1) * l" using assms by simp
  then have "(0::rat) \<le> of_int ((p - 1) * l)" by (simp only: of_int_0_le_iff)
  moreover have "(0::rat) < of_int l" using assms by simp
  ultimately show ?thesis unfolding s l window_def
    by (simp only: prod.case jsnum.case floor_of_int if_True simp_thms)
qed


lemmas query_defs = no_filter_def build_query_def set_if_truthy_def truthy_opt_def truthy_def
  cast_filter_def compile_search_def cast_ref_def

lemma sample_rows:
  "filter (matches \<lparr>tf_isDeleted = False, tf_status = None, tf_priority = None,
                     tf_assignedTo = None, tf_or = None\<rparr> None None) sample_tasks
     = [sample_tasks ! 0, sample_tasks ! 1, sample_tasks ! 2]"
  by (simp add: matches_def sample_tasks_def mk_task_def)

lemma route_getTasks_Inr:
  assumes "route_getTasks x q st = Inr r"
  shows "\<exists>v. taskQuerySchema q = Some v" and "getTasks x q st = Inr r"
  using assms
  by (auto simp: route_getTasks_def validateQuery_def split: option.splits sum.splits)

lemma route_getTasks_valid:
  "taskQuerySchema q = Some v \<Longrightarrow> route_getTasks x q st = getTasks x q st"
  by (simp add: route_getTasks_def validateQuery_def)

section \<open>Pagination\<close>

text \<open>
  Claim C5. For a task list query with page \<open>p \<ge> 1\<close> and limit \<open>l \<ge> 1\<close> whose filter
  the database accepts, \<open>getTasks\<close> answers with the rows that remain of the sorted
  matching rows after skipping \<open>(p - 1) * l\<close> of them and taking \<open>l\<close>; \<open>total\<close> is the
  number of all matching rows, \<open>pages\<close> is the ceiling of \<open>total / l\<close>, that is
  \<open>(total + l - 1) div l\<close>, and a page beyond the last is the empty list, not an error.
\<close>

theorem pagination_slice:
  assumes "q_page q = Some p" and "q_limit q = Some l" and "1 \<le> p" and "1 \<le> l"
    and "cast_filter x (build_query q) = Inr P"
  shows "\<exists>r. getTasks x q st = Inr r
           \<and> map pt_doc (pg_tasks r) =
               take (nat l) (drop (nat ((p - 1) * l))
                 (sort_tasks (sortField q) (sortDir q) (filter P (tasks st))))
           \<and> pg_total r = length (filter P (tasks st))
           \<and> pg_page r = Num (of_int p) \<and> pg_limit r = Num (of_int l)
           \<and> pg_pages r = Num (of_int \<lceil>(of_nat (pg_total r) :: rat) / of_int l\<rceil>)
           \<and> \<lceil>(of_nat (pg_total r) :: rat) / of_int l\<rceil> = (int (pg_total r) + l - 1) div l
           \<and> (\<lceil>(of_nat (pg_total r) :: rat) / of_int l\<rceil> < p \<longrightarrow> pg_tasks r = [])"
proof -
  let ?rows = "sort_tasks (sortField q) (sortDir q) (filter P (tasks st))"
  let ?n = "length (filter P (tasks st))"
  note w = window_page[OF assms(1-4), of x]
  note g = getTasks_ok[OF assms(5) w, of st]
  have lpos: "(of_int l :: rat) \<noteq> 0" using assms(4) by simp
  have pages: "js_ceil (js_div (Num (of_nat ?n)) (to_number (q_limit q)))
                 = Num (of_int \<lceil>(of_nat ?n :: rat) / of_int l\<rceil>)"
    using assms(2) lpos by (simp add: to_number_def)
  have cd: "\<lceil>(of_nat ?n :: rat) / of_int l\<rceil> = (int ?n + l - 1) div l"
    using ceil_div_int[of l "int ?n"] assms(4) by simp
  have empty: "\<lceil>(of_nat ?n :: rat) / of_int l\<rceil> < p \<longrightarrow>
                 take (nat l) (drop (nat ((p - 1) * l)) ?rows) = []"
  proof
    assume "\<lceil>(of_nat ?n :: rat) / of_int l\<rceil> < p"
    from beyond_last[OF assms(4) this] have "length ?rows \<le> nat ((p - 1) * l)"
      by (simp add: length_sort_tasks)
    then show "take (nat l) (drop (nat ((p - 1) * l)) ?rows) = []" by simp
  qed
  show ?thesis
    unfolding g using pages cd empty assms(1,2)
    by (simp add: slice_def pt_doc_populate_o parseInt_def)
qed


theorem pagination_slice_witness:
  "(\<exists>r. getTasks sample_ext (no_filter\<lparr>q_page := Some 2, q_limit := Some 2\<rparr>) sample_store = Inr r
        \<and> pg_total r = 3 \<and> pg_pages r = Num 2 \<and> pg_page r = Num 2
        \<and> map (t_id \<circ> pt_doc) (pg_tasks r) = [''t3''])
   \<and> (\<exists>r. getTasks sample_ext (no_filter\<lparr>q_page := Some 3, q_limit := Some 2\<rparr>) sample_store = Inr r
        \<and> pg_total r = 3 \<and> pg_pages r = Num 2 \<and> pg_tasks r = [])"
proof -
  let ?f = "\<lparr>tf_isDeleted = False, tf_status = None, tf_priority = None,
             tf_assignedTo = None, tf_or = None\<rparr>"
  let ?P = "matches ?f None None"
  let ?q2 = "no_filter\<lparr>q_page := Some 2, q_limit := Some 2\<rparr>"
  let ?q3 = "no_filter\<lparr>q_page := Some 3, q_limit := Some 2\<rparr>"
  have c2: "cast_filter sample_ext (build_query ?q2) = Inr ?P"
    by (simp add: query_defs)
  have c3: "cast_filter sample_ext (build_query ?q3) = Inr ?P"
    by (simp add: query_defs)
  have rows: "filter ?P (tasks sample_store) = [sample_tasks ! 0, sample_tasks ! 1, sample_tasks ! 2]"
    using sample_rows by (simp add: sample_store_def)
  have sorted: "sort_tasks ''undefined'' 1 [sample_tasks ! 0, sample_tasks ! 1, sample_tasks ! 2]
                  = [sample_tasks ! 0, sample_tasks ! 1, sample_tasks ! 2]"
    by (simp add: sort_tasks_def sort_by_def sort_key_def)
  have sf: "sortField ?q2 = ''undefined''" "sortDir ?q2 = 1"
           "sortField ?q3 = ''undefined''" "sortDir ?q3 = 1"
    by (simp_all add: sortField_def sortDir_def no_filter_def)
  have ceil: "\<lceil>(3 :: rat) / 2\<rceil> = 2" using ceil_div_int[of 2 3] by simp
  from pagination_slice[of ?q2 2 2 sample_ext ?P sample_store] c2
  obtain r2 where r2: "getTasks sample_ext ?q2 sample_store = Inr r2"
      "map pt_doc (pg_tasks r2) = take (nat 2) (drop (nat ((2 - 1) * 2))
                 (sort_tasks (sortField ?q2) (sortDir ?q2) (filter ?P (tasks sample_store))))"
      "pg_total r2 = length (filter ?P (tasks sample_store))"
      "pg_page r2 = Num (of_int 2)"
      "pg_pages r2 = Num (of_int \<lceil>(of_nat (pg_total r2) :: rat) / of_int 2\<rceil>)"
    by (auto simp: no_filter_def)
  from pagination_slice[of ?q3 3 2 sample_ext ?P sample_store] c3
  obtain r3 where r3: "getTasks sample_ext ?q3 sample_store = Inr r3"
      "pg_total r3 = length (filter ?P (tasks sample_store))"
      "pg_pages r3 = Num (of_int \<lceil>(of_nat (pg_total r3) :: rat) / of_int 2\<rceil>)"
      "\<lceil>(of_nat (pg_total r3) :: rat) / of_int 2\<rceil> < 3 \<longrightarrow> pg_tasks r3 = []"
    by (auto simp: no_filter_def)
  have t2: "pg_total r2 = 3" using r2(3) rows by simp
  have t3: "pg_total r3 = 3" using r3(2) rows by simp
  have p2: "pg_pages r2 = Num 2" using r2(5) ceil unfolding t2 by simp
  have p3: "pg_pages r3 = Num 2" using r3(3) ceil unfolding t3 by simp
  have e3: "pg_tasks r3 = []" using r3(4) ceil unfolding t3 by simp
  have "map pt_doc (pg_tasks r2) = [sample_tasks ! 2]"
    unfolding r2(2) sf rows sorted by simp
  then have "map t_id (map pt_doc (pg_tasks r2)) = [''t3'']"
    by (simp add: sample_tasks_def mk_task_def)
  then have i2: "map (t_id \<circ> pt_doc) (pg_tasks r2) = [''t3'']" by simp
  show ?thesis using r2(1,4) t2 p2 i2 r3(1) t3 p3 e3 by simp
qed

section \<open>Filter composition\<close>




section \<open>Defaults of the task list query\<close>

text \<open>
  Claim C4, at the request that supplies neither \<open>page\<close> nor \<open>limit\<close>. The schema
  declares the defaults 1 and 10 and the validated value holds them, but
  \<open>validateQuery\<close> hands the handler the query as it came: the skip and the limit of
  the cursor are \<open>NaN\<close>, the sort is on the property \<open>undefined\<close> in ascending
  direction, and the answer, when the database serves such a cursor at all, reports
  \<open>NaN\<close> for \<open>page\<close>, \<open>limit\<close> and \<open>pages\<close>.
\<close>

theorem query_defaults_not_applied:
  "taskQuerySchema no_filter
     = Some (no_filter\<lparr>q_page := Some 1, q_limit := Some 10,
                        q_sortBy := Some ''createdAt'', q_sortOrder := Some ''desc''\<rparr>)
   \<and> validateQuery taskQuerySchema no_filter = Inr no_filter
   \<and> cursor_skip no_filter = NaN \<and> cursor_limit no_filter = NaN
   \<and> sortField no_filter = ''undefined'' \<and> sortDir no_filter = 1
   \<and> route_getTasks x no_filter st =
       (case oddWindow x NaN NaN of
          Inl e \<Rightarrow> Inl ServerError
        | Inr w \<Rightarrow>
            Inr \<lparr>pg_tasks = map (populate_task st)
                     (slice w (sort_tasks ''undefined'' 1
                        (filter (\<lambda>t. t_isDeleted t = False) (tasks st)))),
                 pg_page = NaN, pg_limit = NaN,
                 pg_total = length (filter (\<lambda>t. t_isDeleted t = False) (tasks st)),
                 pg_pages = NaN\<rparr>)"
proof -
  have v: "taskQuerySchema no_filter
     = Some (no_filter\<lparr>q_page := Some 1, q_limit := Some 10,
                        q_sortBy := Some ''createdAt'', q_sortOrder := Some ''desc''\<rparr>)"
    by (simp add: taskQuerySchema_def no_filter_def)
  have vq: "validateQuery taskQuerySchema no_filter = Inr no_filter"
    by (simp add: validateQuery_def v)
  have sk: "cursor_skip no_filter = NaN" "cursor_limit no_filter = NaN"
    by (simp_all add: cursor_skip_def cursor_limit_def to_number_def no_filter_def)
  have sf: "sortField no_filter = ''undefined''" "sortDir no_filter = 1"
    by (simp_all add: sortField_def sortDir_def no_filter_def)
  have m: "matches \<lparr>tf_isDeleted = False, tf_status = None, tf_priority = None,
                     tf_assignedTo = None, tf_or = None\<rparr> None None
             = (\<lambda>t. t_isDeleted t = False)"
    by (rule ext) (simp add: matches_def)
  have c: "cast_filter x (build_query no_filter) = Inr (\<lambda>t. t_isDeleted t = False)"
    using m by (simp add: query_defs)
  have win: "window x NaN NaN = oddWindow x NaN NaN" by (simp add: window_def)
  have pi: "parseInt (q_page no_filter) = NaN" "parseInt (q_limit no_filter) = NaN"
           "to_number (q_limit no_filter) = NaN"
    by (simp_all add: parseInt_def to_number_def no_filter_def)
  have "route_getTasks x no_filter st = getTasks x no_filter st"
    using route_getTasks_valid[OF v] .
  also have "\<dots> = (case oddWindow x NaN NaN of
          Inl e \<Rightarrow> Inl ServerError
        | Inr w \<Rightarrow>
            Inr \<lparr>pg_tasks = map (populate_task st)
                     (slice w (sort_tasks ''undefined'' 1
                        (filter (\<lambda>t. t_isDeleted t = False) (tasks st)))),
                 pg_page = NaN, pg_limit = NaN,
                 pg_total = length (filter (\<lambda>t. t_isDeleted t = False) (tasks st)),
                 pg_pages = NaN\<rparr>)"
    unfolding getTasks_def Task_find_def Task_countDocuments_def Let_def c sk sf win pi
    by (simp split: sum.splits)
  finally show ?thesis using v vq sk sf by simp
qed

section \<open>Analytics: overview\<close>

lemma bump_keys: "fst ` set (bump k r) = insert k (fst ` set r)"
  by (induction k r rule: bump.induct) auto

lemma bump_distinct: "distinct (map fst r) \<Longrightarrow> distinct (map fst (bump k r))"
proof (induction r)
  case Nil
  then show ?case by simp
next
  case (Cons p r)
  obtain k' c where p: "p = (k', c)" by (cases p)
  show ?case
  proof (cases "k = k'")
    case True
    with Cons.prems p show ?thesis by simp
  next
    case False
    have "k' \<notin> fst ` set (bump k r)" using Cons.prems p False by (simp add: bump_keys)
    with Cons p False show ?thesis by simp
  qed
qed

lemma map_of_bump:
  "map_of (bump k r) k' =
     (if k' = k then Some (case map_of r k of None \<Rightarrow> 1 | Some c \<Rightarrow> Suc c) else map_of r k')"
  by (induction k r rule: bump.induct) auto

lemma sum_bump: "sum_list (map snd (bump k r)) = Suc (sum_list (map snd r))"
  by (induction k r rule: bump.induct) auto

lemma group_count_distinct: "distinct (map fst (group_count ks))"
  by (induction ks) (auto simp: group_count_def intro: bump_distinct)

lemma group_count_sum: "sum_list (map snd (group_count ks)) = length ks"
  by (induction ks) (auto simp: group_count_def sum_bump)

lemma group_count_lookup:
  "map_of (group_count ks) k =
     (if k \<in> set ks then Some (length (filter (\<lambda>k'. k' = k) ks)) else None)"
proof (induction ks)
  case Nil
  then show ?case by (simp add: group_count_def)
next
  case (Cons a ks)
  have "group_count (a # ks) = bump a (group_count ks)" by (simp add: group_count_def)
  then show ?case using Cons map_of_bump[of a "group_count ks" k]
    by (auto simp: filter_empty_conv)
qed

lemma foldl_sum:
  "foldl (\<lambda>sum stat. sum + snd stat) (a::nat) xs = a + sum_list (map snd xs)"
  by (induction xs arbitrary: a) auto

lemma foldl_object:
  "distinct (map fst xs) \<Longrightarrow>
   foldl (\<lambda>acc stat. acc(fst stat \<mapsto> snd stat)) m xs = m ++ map_of xs"
proof (induction xs arbitrary: m)
  case Nil
  then show ?case by simp
next
  case (Cons p xs)
  have nd: "fst p \<notin> dom (map_of xs)" using Cons.prems by (auto simp: dom_map_of_conv_image_fst)
  have d: "distinct (map fst xs)" using Cons.prems by simp
  have "foldl (\<lambda>acc stat. acc(fst stat \<mapsto> snd stat)) m (p # xs)
          = foldl (\<lambda>acc stat. acc(fst stat \<mapsto> snd stat)) (m(fst p \<mapsto> snd p)) xs"
    by (simp only: foldl_Cons)
  also have "\<dots> = m(fst p \<mapsto> snd p) ++ map_of xs"
    by (rule Cons.IH[OF d])
  also have "\<dots> = (m ++ map_of xs)(fst p \<mapsto> snd p)"
    using nd by (rule map_add_upd_left)
  also have "\<dots> = m ++ map_of (p # xs)" by (cases p) simp
  finally show ?case .
qed

lemma status_count:
  "or_zero ((foldl (\<lambda>acc stat. acc(fst stat \<mapsto> snd stat)) Map.empty (group_count ks)) k)
     = length (filter (\<lambda>k'. k' = k) ks)"
proof -
  have "foldl (\<lambda>acc stat. acc(fst stat \<mapsto> snd stat)) Map.empty (group_count ks) k
          = map_of (group_count ks) k"
    by (simp add: foldl_object[OF group_count_distinct])
  then show ?thesis
    by (simp add: group_count_lookup or_zero_def filter_empty_conv)
qed

lemma count_status:
  "length (filter (\<lambda>k'. k' = s) (map t_status (filter (\<lambda>t. t_isDeleted t = False) ts)))
     = length (filter (\<lambda>t. \<not> t_isDeleted t \<and> t_status t = s) ts)"
  by (induction ts) auto

text \<open>
  Claim C8. The overview is a flat record of five counts over the tasks that are not
  deleted: \<open>totalTasks\<close> counts all of them, \<open>completedTasks\<close> those with status
  \<open>done\<close>, \<open>pendingTasks\<close> those with status \<open>todo\<close>, \<open>inProgressTasks\<close> those with
  status \<open>in-progress\<close>, and \<open>overdueTasks\<close> those that have a due date before now and
  a status other than \<open>done\<close>.
\<close>

theorem overview_counts:
  "getOverview x st =
     \<lparr>totalTasks = length (filter (\<lambda>t. \<not> t_isDeleted t) (tasks st)),
      completedTasks = length (filter (\<lambda>t. \<not> t_isDeleted t \<and> t_status t = ''done'') (tasks st)),
      pendingTasks = length (filter (\<lambda>t. \<not> t_isDeleted t \<and> t_status t = ''todo'') (tasks st)),
      inProgressTasks =
        length (filter (\<lambda>t. \<not> t_isDeleted t \<and> t_status t = ''in-progress'') (tasks st)),
      overdueTasks =
        length (filter (\<lambda>t. \<not> t_isDeleted t \<and> (\<exists>d. t_dueDate t = Some d \<and> d < dateNow x)
                              \<and> t_status t \<noteq> ''done'') (tasks st))\<rparr>"
proof -
  have due: "\<And>t. (case t_dueDate t of None \<Rightarrow> False | Some d \<Rightarrow> d < dateNow x)
                 = (\<exists>d. t_dueDate t = Some d \<and> d < dateNow x)"
    by (simp split: option.splits)
  show ?thesis
    unfolding getOverview_def Let_def
    by (simp add: status_count count_status foldl_sum group_count_sum due)
qed

theorem overview_counts_witness:
  "getOverview sample_ext sample_store =
     \<lparr>totalTasks = 3, completedTasks = 1, pendingTasks = 1, inProgressTasks = 1,
      overdueTasks = 1\<rparr>"
  unfolding overview_counts
  by (simp add: sample_store_def sample_tasks_def mk_task_def sample_ext_def)

section \<open>Analytics: performance\<close>

lemma assigned_filter:
  "filter (\<lambda>t. t_assignedTo t = Some uid \<and> t_isDeleted t = False) (tasks st)
     = spec_assigned st uid"
  unfolding spec_assigned_def by (rule filter_cong[OF refl]) auto

lemma completed_filter:
  "filter (\<lambda>t. t_assignedTo t = Some uid \<and> t_status t = ''done'' \<and> t_isDeleted t = False)
     (tasks st) = spec_completed st uid"
  unfolding spec_completed_def spec_assigned_def filter_filter
  by (rule filter_cong[OF refl]) auto

lemma rate_guarded:
  "(if length (spec_assigned st uid) > 0
    then dbl x (js_mul (dbl x (js_div (Num (of_nat (length (spec_completed st uid))))
                                   (Num (of_nat (length (spec_assigned st uid))))))
                  (Num 100))
    else Num 0) = spec_rate x st uid"
  by (cases "spec_assigned st uid") (simp_all add: spec_rate_def)

lemma avg_guarded:
  "(if length (avg_duration x uid st) > 0
    then dbl x (js_div (avg_duration x uid st ! 0) (Num (1000 * 60 * 60 * 24)))
    else Num 0) = spec_cycle_days x st uid"
proof (cases "spec_completed st uid")
  case Nil
  then show ?thesis
    unfolding avg_duration_def Let_def completed_filter by (simp add: spec_cycle_days_def)
next
  case (Cons t ts)
  then show ?thesis
    unfolding avg_duration_def Let_def completed_filter
    by (simp add: spec_cycle_days_def ms_per_day_def)
qed

lemma performance_row_spec:
  "performance_row x st u =
     \<lparr>pr_userId = u_id u, pr_username = u_username u,
      pr_totalTasks = length (spec_assigned st (u_id u)),
      pr_completedTasks = length (spec_completed st (u_id u)),
      pr_completionRate = spec_rate x st (u_id u),
      pr_averageCompletionTime = spec_cycle_days x st (u_id u)\<rparr>"
  unfolding performance_row_def Let_def assigned_filter completed_filter rate_guarded avg_guarded
  by simp

lemma spec_figures_finite:
  "\<exists>a. spec_rate x st uid = Num a" "\<exists>d. spec_cycle_days x st uid = Num d"
  "length (spec_assigned st uid) = 0 \<Longrightarrow> spec_rate x st uid = Num 0"
  "length (spec_completed st uid) = 0 \<Longrightarrow> spec_cycle_days x st uid = Num 0"
  by (simp_all add: spec_rate_def spec_cycle_days_def)

text \<open>
  Claim C9. The performance answer has one row for every user, active or not, in the
  order of the users. The row of a user counts the non-deleted tasks assigned to it and
  those of them that are done; its completion rate is done / assigned * 100, and 0 when
  nothing is assigned; its average completion time is the mean of
  \<open>updatedAt - createdAt\<close> over the done tasks, in days, and 0 when none is done. Every
  figure is a number: no row holds \<open>NaN\<close> or an infinity.
\<close>

theorem performance_rows:
  "getPerformance x st =
     map (\<lambda>u. \<lparr>pr_userId = u_id u, pr_username = u_username u,
                pr_totalTasks = length (spec_assigned st (u_id u)),
                pr_completedTasks = length (spec_completed st (u_id u)),
                pr_completionRate = spec_rate x st (u_id u),
                pr_averageCompletionTime = spec_cycle_days x st (u_id u)\<rparr>) (users st)
   \<and> map pr_userId (getPerformance x st) = map u_id (users st)
   \<and> (\<forall>r \<in> set (getPerformance x st).
         (\<exists>a. pr_completionRate r = Num a) \<and> (\<exists>d. pr_averageCompletionTime r = Num d)
         \<and> (pr_totalTasks r = 0 \<longrightarrow> pr_completionRate r = Num 0)
         \<and> (pr_completedTasks r = 0 \<longrightarrow> pr_averageCompletionTime r = Num 0))"
proof (intro conjI ballI)
  show rows: "getPerformance x st =
     map (\<lambda>u. \<lparr>pr_userId = u_id u, pr_username = u_username u,
                pr_totalTasks = length (spec_assigned st (u_id u)),
                pr_completedTasks = length (spec_completed st (u_id u)),
                pr_completionRate = spec_rate x st (u_id u),
                pr_averageCompletionTime = spec_cycle_days x st (u_id u)\<rparr>) (users st)"
    by (simp add: getPerformance_def performance_row_spec)
  show "map pr_userId (getPerformance x st) = map u_id (users st)"
    by (simp add: getPerformance_def performance_row_spec comp_def)
  fix r assume "r \<in> set (getPerformance x st)"
  then obtain u where r: "r = performance_row x st u"
    by (auto simp: getPerformance_def)
  show "\<exists>a. pr_completionRate r = Num a"
    unfolding r performance_row_spec using spec_figures_finite(1)[of x st "u_id u"] by simp
  show "\<exists>d. pr_averageCompletionTime r = Num d"
    unfolding r performance_row_spec using spec_figures_finite(2)[of x st "u_id u"] by simp
  show "pr_totalTasks r = 0 \<longrightarrow> pr_completionRate r = Num 0"
    unfolding r performance_row_spec using spec_figures_finite(3)[of st "u_id u" x] by simp
  show "pr_completedTasks r = 0 \<longrightarrow> pr_averageCompletionTime r = Num 0"
    unfolding r performance_row_spec using spec_figures_finite(4)[of st "u_id u" x] by simp
qed

theorem performance_rows_witness:
  "getPerformance sample_ext sample_store =
     [\<lparr>pr_userId = ''u1'', pr_username = ''alice'', pr_totalTasks = 0, pr_completedTasks = 0,
       pr_completionRate = Num 0, pr_averageCompletionTime = Num 0\<rparr>,
      \<lparr>pr_userId = ''u2'', pr_username = ''bob'', pr_totalTasks = 2, pr_completedTasks = 1,
       pr_completionRate = Num 50, pr_averageCompletionTime = Num 1\<rparr>,
      \<lparr>pr_userId = ''u3'', pr_username = ''carol'', pr_totalTasks = 0, pr_completedTasks = 0,
       pr_completionRate = Num 0, pr_averageCompletionTime = Num 0\<rparr>]"
proof -
  have a: "spec_assigned sample_store ''u1'' = []" "spec_assigned sample_store ''u3'' = []"
          "spec_assigned sample_store ''u2'' = [sample_tasks ! 0, sample_tasks ! 1]"
    by (simp_all add: spec_assigned_def sample_store_def sample_tasks_def mk_task_def)
  have c: "spec_completed sample_store ''u1'' = []" "spec_completed sample_store ''u3'' = []"
          "spec_completed sample_store ''u2'' = [sample_tasks ! 1]"
    unfolding spec_completed_def a by (simp_all add: sample_tasks_def mk_task_def)
  have f: "fl sample_ext = (\<lambda>a. a)" by (simp add: sample_ext_def)
  have r: "spec_rate sample_ext sample_store ''u1'' = Num 0"
          "spec_rate sample_ext sample_store ''u3'' = Num 0"
          "spec_rate sample_ext sample_store ''u2'' = Num 50"
    unfolding spec_rate_def a c f by simp_all
  have d: "spec_cycle_days sample_ext sample_store ''u1'' = Num 0"
          "spec_cycle_days sample_ext sample_store ''u3'' = Num 0"
          "spec_cycle_days sample_ext sample_store ''u2'' = Num 1"
    unfolding spec_cycle_days_def c f
    by (simp_all add: ms_per_day_def sample_tasks_def mk_task_def)
  have u: "users sample_store = [alice, bob, carol]" by (simp add: sample_store_def)
  from performance_rows[of sample_ext sample_store]
  have "getPerformance sample_ext sample_store =
     map (\<lambda>u. \<lparr>pr_userId = u_id u, pr_username = u_username u,
                pr_totalTasks = length (spec_assigned sample_store (u_id u)),
                pr_completedTasks = length (spec_completed sample_store (u_id u)),
                pr_completionRate = spec_rate sample_ext sample_store (u_id u),
                pr_averageCompletionTime = spec_cycle_days sample_ext sample_store (u_id u)\<rparr>)
       (users sample_store)" by blast
  then show ?thesis unfolding u
    by (simp add: alice_def bob_def carol_def a c r d)
qed

section \<open>Soft delete\<close>

lemma update_first_keys:
  "(\<And>b. key (g b) = key b) \<Longrightarrow> map key (update_first p g xs) = map key xs"
  by (induction xs) auto

lemma update_first_hit:
  "find p xs = Some a \<Longrightarrow> g a \<in> set (update_first p g xs)"
  by (induction xs) (auto split: if_splits)

lemma update_first_only:
  assumes "distinct (map key xs)" and "find p xs = Some a" and "\<And>b. key (g b) = key b"
  shows "\<forall>b \<in> set (update_first p g xs). key b = key a \<longrightarrow> b = g a"
  using assms(1,2)
proof (induction xs)
  case Nil
  then show ?case by simp
next
  case (Cons y ys)
  show ?case
  proof (cases "p y")
    case True
    then have ay: "a = y" using Cons.prems(2) by simp
    have "key y \<notin> key ` set ys" using Cons.prems(1) by simp
    then have "\<forall>b \<in> set ys. key b \<noteq> key y" by (metis imageI)
    then show ?thesis using True ay by auto
  next
    case False
    then have f: "find p ys = Some a" using Cons.prems(2) by simp
    then have "a \<in> set ys" by (auto simp: find_Some_iff)
    moreover have "key y \<notin> key ` set ys" using Cons.prems(1) by simp
    ultimately have ky: "key y \<noteq> key a" by (metis imageI)
    have d: "distinct (map key ys)" using Cons.prems(1) by simp
    from Cons.IH[OF d f] ky False show ?thesis by auto
  qed
qed

lemma find_key: "find (\<lambda>a. key a = i \<and> live a) xs = Some a \<Longrightarrow> key a = i \<and> live a \<and> a \<in> set xs"
  by (auto simp: find_Some_iff)

lemma matches_live: "matches (build_query q) a m t \<Longrightarrow> \<not> t_isDeleted t"
  by (simp add: matches_def build_query_def)

lemma getTasks_live:
  assumes "getTasks x q st = Inr r"
  shows "\<forall>t \<in> set (map pt_doc (pg_tasks r)). t \<in> set (tasks st) \<and> \<not> t_isDeleted t"
proof -
  from getTasks_Inr[OF assms] obtain P w where
    P: "cast_filter x (build_query q) = Inr P"
    and w: "window x (cursor_skip q) (cursor_limit q) = Inr w" by blast
  from P obtain a m where Pm: "P = matches (build_query q) a m"
    by (auto simp: cast_filter_def split: sum.splits)
  from getTasks_ok[OF P w, of st] assms have
    "map pt_doc (pg_tasks r) = slice w (sort_tasks (sortField q) (sortDir q) (filter P (tasks st)))"
    by (auto simp: pt_doc_populate_o)
  then have "set (map pt_doc (pg_tasks r)) \<subseteq> set (filter P (tasks st))"
    using set_slice[of w "sort_tasks (sortField q) (sortDir q) (filter P (tasks st))"]
    by (simp add: set_sort_tasks)
  then show ?thesis unfolding Pm using matches_live by auto
qed

lemma exportTasks_live:
  "\<forall>t \<in> set (map pt_doc (exportTasks u st)). t \<in> set (tasks st) \<and> \<not> t_isDeleted t"
  by (auto simp: exportTasks_def Let_def pt_doc_populate_o set_sort_by)

lemma deleteTask_Inr:
  assumes "deleteTask x u tid st = (Inr (), st')"
  shows "\<exists>i t. castObjectId x tid = Some i
           \<and> find (\<lambda>t. t_id t = i \<and> t_isDeleted t = False) (tasks st) = Some t
           \<and> st' = st\<lparr>tasks := update_first (\<lambda>t. t_id t = i \<and> t_isDeleted t = False)
                       (\<lambda>t. t\<lparr>t_isDeleted := True, t_deletedAt := Some (dateNow x),
                               t_updatedAt := dateNow x\<rparr>) (tasks st)\<rparr>"
  using assms by (auto simp: deleteTask_def split: option.splits)

lemma task_soft_delete:
  assumes d: "distinct (map t_id (tasks st))"
    and del: "deleteTask x u tid st = (Inr (), st')"
    and i: "castObjectId x tid = Some i"
  shows "map t_id (tasks st') = map t_id (tasks st)"
    and "\<exists>t \<in> set (tasks st'). t_id t = i \<and> t_isDeleted t \<and> t_deletedAt t = Some (dateNow x)"
    and "find (\<lambda>t. t_id t = i \<and> t_isDeleted t = False) (tasks st') = None"
    and "\<forall>t \<in> set (tasks st'). \<not> t_isDeleted t \<longrightarrow> t_id t \<noteq> i"
proof -
  let ?p = "\<lambda>t. t_id t = i \<and> t_isDeleted t = False"
  let ?g = "\<lambda>t. t\<lparr>t_isDeleted := True, t_deletedAt := Some (dateNow x), t_updatedAt := dateNow x\<rparr>"
  from deleteTask_Inr[OF del] i obtain t where
    f: "find ?p (tasks st) = Some t" and st': "st' = st\<lparr>tasks := update_first ?p ?g (tasks st)\<rparr>"
    by auto
  have ti: "t_id t = i" using find_key[OF f] by simp
  have tk: "tasks st' = update_first ?p ?g (tasks st)" using st' by simp
  show "map t_id (tasks st') = map t_id (tasks st)"
    unfolding tk by (rule update_first_keys) simp
  have "?g t \<in> set (tasks st')" unfolding tk using f by (rule update_first_hit)
  then show "\<exists>t \<in> set (tasks st'). t_id t = i \<and> t_isDeleted t \<and> t_deletedAt t = Some (dateNow x)"
    using ti by (intro bexI[of _ "?g t"]) simp_all
  have only: "\<forall>b \<in> set (tasks st'). t_id b = t_id t \<longrightarrow> b = ?g t"
    unfolding tk by (rule update_first_only[OF d f]) simp
  then show "find ?p (tasks st') = None" using ti by (auto simp: find_None_iff)
  show "\<forall>t \<in> set (tasks st'). \<not> t_isDeleted t \<longrightarrow> t_id t \<noteq> i"
    using only ti by auto
qed

lemma find_by_key:
  "distinct (map key xs) \<Longrightarrow> a \<in> set xs \<Longrightarrow> find (\<lambda>b. key b = key a) xs = Some a"
proof (induction xs)
  case Nil
  then show ?case by simp
next
  case (Cons y ys)
  show ?case
  proof (cases "a = y")
    case True
    then show ?thesis by simp
  next
    case False
    then have a: "a \<in> set ys" using Cons.prems(2) by simp
    have "key y \<notin> key ` set ys" using Cons.prems(1) by simp
    then have "key y \<noteq> key a" using a by (metis imageI)
    then show ?thesis using Cons.IH a Cons.prems(1) by simp
  qed
qed

lemma deleteComment_Inr:
  assumes "deleteComment x u cid st = (Inr (), st')"
  shows "\<exists>i c. castObjectId x cid = Some i
           \<and> find (\<lambda>c. c_id c = i \<and> c_author c = u_id u \<and> c_isDeleted c = False) (comments st)
               = Some c
           \<and> st' = st\<lparr>comments :=
                 update_first (\<lambda>c. c_id c = i \<and> c_author c = u_id u \<and> c_isDeleted c = False)
                   (\<lambda>c. c\<lparr>c_isDeleted := True, c_deletedAt := Some (dateNow x),
                           c_updatedAt := dateNow x\<rparr>) (comments st)\<rparr>"
  using assms by (auto simp: deleteComment_def split: option.splits)

lemma comment_soft_delete:
  assumes d: "distinct (map c_id (comments st))"
    and del: "deleteComment x u cid st = (Inr (), st')"
    and i: "castObjectId x cid = Some i"
  shows "map c_id (comments st') = map c_id (comments st)"
    and "\<exists>c \<in> set (comments st'). c_id c = i \<and> c_isDeleted c \<and> c_deletedAt c = Some (dateNow x)"
    and "\<forall>c \<in> set (comments st'). \<not> c_isDeleted c \<longrightarrow> c_id c \<noteq> i"
proof -
  let ?p = "\<lambda>c. c_id c = i \<and> c_author c = u_id u \<and> c_isDeleted c = False"
  let ?g = "\<lambda>c. c\<lparr>c_isDeleted := True, c_deletedAt := Some (dateNow x), c_updatedAt := dateNow x\<rparr>"
  from deleteComment_Inr[OF del] i obtain c where
    f: "find ?p (comments st) = Some c"
    and st': "st' = st\<lparr>comments := update_first ?p ?g (comments st)\<rparr>"
    by auto
  have ci: "c_id c = i" using f by (auto simp: find_Some_iff)
  have ck: "comments st' = update_first ?p ?g (comments st)" using st' by simp
  show "map c_id (comments st') = map c_id (comments st)"
    unfolding ck by (rule update_first_keys) simp
  have "?g c \<in> set (comments st')" unfolding ck using f by (rule update_first_hit)
  then show "\<exists>c \<in> set (comments st'). c_id c = i \<and> c_isDeleted c
               \<and> c_deletedAt c = Some (dateNow x)"
    using ci by (intro bexI[of _ "?g c"]) simp_all
  have only: "\<forall>b \<in> set (comments st'). c_id b = c_id c \<longrightarrow> b = ?g c"
    unfolding ck by (rule update_first_only[OF d f]) simp
  show "\<forall>c \<in> set (comments st'). \<not> c_isDeleted c \<longrightarrow> c_id c \<noteq> i"
    using only ci by auto
qed

lemma getComments_live:
  assumes "getComments x taskId st = Inr r"
  shows "\<forall>c \<in> set (map pc_doc r). c \<in> set (comments st) \<and> \<not> c_isDeleted c"
  using assms
  by (auto simp: getComments_def populate_comment_def set_sort_by split: option.splits)

lemma deleteFile_Inr:
  assumes "deleteFile x u fid st = (Inr (), st')"
  shows "\<exists>i f. castObjectId x fid = Some i
           \<and> find (\<lambda>f. f_id f = i \<and> f_isDeleted f = False) (files st) = Some f
           \<and> files st' = update_first (\<lambda>g. f_id g = f_id f)
                 (\<lambda>g. g\<lparr>f_isDeleted := True, f_deletedAt := Some (dateNow x),
                         f_updatedAt := dateNow x\<rparr>) (files st)"
  using assms
  by (auto simp: deleteFile_def Let_def split: option.splits sum.splits if_splits)

lemma file_soft_delete:
  assumes d: "distinct (map f_id (files st))"
    and del: "deleteFile x u fid st = (Inr (), st')"
    and i: "castObjectId x fid = Some i"
  shows "map f_id (files st') = map f_id (files st)"
    and "\<exists>f \<in> set (files st'). f_id f = i \<and> f_isDeleted f \<and> f_deletedAt f = Some (dateNow x)"
    and "\<forall>f \<in> set (files st'). \<not> f_isDeleted f \<longrightarrow> f_id f \<noteq> i"
proof -
  let ?g = "\<lambda>g. g\<lparr>f_isDeleted := True, f_deletedAt := Some (dateNow x), f_updatedAt := dateNow x\<rparr>"
  from deleteFile_Inr[OF del] i obtain f where
    f0: "find (\<lambda>f. f_id f = i \<and> f_isDeleted f = False) (files st) = Some f"
    and fk: "files st' = update_first (\<lambda>g. f_id g = f_id f) ?g (files st)"
    by auto
  have fi: "f_id f = i" and fs: "f \<in> set (files st)" using f0 by (auto simp: find_Some_iff)
  have f: "find (\<lambda>g. f_id g = f_id f) (files st) = Some f"
    using find_by_key[OF d fs] .
  show "map f_id (files st') = map f_id (files st)"
    unfolding fk by (rule update_first_keys) simp
  have "?g f \<in> set (files st')" unfolding fk using f by (rule update_first_hit)
  then show "\<exists>f \<in> set (files st'). f_id f = i \<and> f_isDeleted f \<and> f_deletedAt f = Some (dateNow x)"
    using fi by (intro bexI[of _ "?g f"]) simp_all
  have only: "\<forall>b \<in> set (files st'). f_id b = f_id f \<longrightarrow> b = ?g f"
    unfolding fk by (rule update_first_only[OF d f]) simp
  show "\<forall>f \<in> set (files st'). \<not> f_isDeleted f \<longrightarrow> f_id f \<noteq> i"
    using only fi by auto
qed

lemma getFilesForTask_live:
  assumes "getFilesForTask x taskId st = Inr r"
  shows "\<forall>f \<in> set (map pf_doc r). f \<in> set (files st) \<and> \<not> f_isDeleted f"
  using assms
  by (auto simp: getFilesForTask_def populate_file_def set_sort_by split: option.splits)

text \<open>
  Claim C2. In a store whose ids are unique, after a delete that succeeds the record is
  still in its collection, at its place, with \<open>isDeleted\<close> set and \<open>deletedAt\<close> the
  instant of the request; no list query returns it (\<open>getTasks\<close> and the export for a
  task, \<open>getComments\<close> for a comment, \<open>getFilesForTask\<close> for a file); and a lookup
  of it by id answers NotFound: \<open>getTaskById\<close> for a task, \<open>downloadFile\<close> for a file
  and, for a comment, which has no route that fetches it by id, the lookup of
  \<open>deleteComment\<close>.
\<close>

theorem soft_delete_hidden:
  "(distinct (map t_id (tasks st)) \<and> deleteTask x u tid st = (Inr (), st1)
      \<and> castObjectId x tid = Some i \<longrightarrow>
        map t_id (tasks st1) = map t_id (tasks st)
        \<and> (\<exists>t \<in> set (tasks st1). t_id t = i \<and> t_isDeleted t \<and> t_deletedAt t = Some (dateNow x))
        \<and> getTaskById x tid st1 = Inl NotFound
        \<and> (\<forall>q r. getTasks x q st1 = Inr r \<longrightarrow> i \<notin> set (map (t_id \<circ> pt_doc) (pg_tasks r)))
        \<and> (\<forall>u'. i \<notin> set (map (t_id \<circ> pt_doc) (exportTasks u' st1))))
   \<and> (distinct (map c_id (comments st)) \<and> deleteComment x u cid st = (Inr (), st2)
      \<and> castObjectId x cid = Some j \<longrightarrow>
        map c_id (comments st2) = map c_id (comments st)
        \<and> (\<exists>c \<in> set (comments st2). c_id c = j \<and> c_isDeleted c
              \<and> c_deletedAt c = Some (dateNow x))
        \<and> (\<forall>taskId r. getComments x taskId st2 = Inr r \<longrightarrow> j \<notin> set (map (c_id \<circ> pc_doc) r))
        \<and> (\<forall>u'. deleteComment x u' cid st2 = (Inl NotFound, st2)))
   \<and> (distinct (map f_id (files st)) \<and> deleteFile x u fid st = (Inr (), st3)
      \<and> castObjectId x fid = Some k \<longrightarrow>
        map f_id (files st3) = map f_id (files st)
        \<and> (\<exists>f \<in> set (files st3). f_id f = k \<and> f_isDeleted f \<and> f_deletedAt f = Some (dateNow x))
        \<and> (\<forall>u'. downloadFile x u' fid st3 = Inl NotFound)
        \<and> (\<forall>taskId r. getFilesForTask x taskId st3 = Inr r \<longrightarrow>
              k \<notin> set (map (f_id \<circ> pf_doc) r)))"
proof (intro conjI impI)
  assume a: "distinct (map t_id (tasks st)) \<and> deleteTask x u tid st = (Inr (), st1)
      \<and> castObjectId x tid = Some i"
  then have d: "distinct (map t_id (tasks st))" and del: "deleteTask x u tid st = (Inr (), st1)"
    and i: "castObjectId x tid = Some i" by simp_all
  note sd = task_soft_delete[OF d del i]
  show "map t_id (tasks st1) = map t_id (tasks st)" by (rule sd(1))
  show "\<exists>t \<in> set (tasks st1). t_id t = i \<and> t_isDeleted t \<and> t_deletedAt t = Some (dateNow x)"
    by (rule sd(2))
  show "getTaskById x tid st1 = Inl NotFound"
    using sd(3) i by (simp add: getTaskById_def)
  show "\<forall>q r. getTasks x q st1 = Inr r \<longrightarrow> i \<notin> set (map (t_id \<circ> pt_doc) (pg_tasks r))"
  proof (intro allI impI)
    fix q r assume "getTasks x q st1 = Inr r"
    from getTasks_live[OF this] sd(4) show "i \<notin> set (map (t_id \<circ> pt_doc) (pg_tasks r))"
      by auto
  qed
  show "\<forall>u'. i \<notin> set (map (t_id \<circ> pt_doc) (exportTasks u' st1))"
  proof
    fix u' :: user
    from exportTasks_live[of u' st1] sd(4)
    show "i \<notin> set (map (t_id \<circ> pt_doc) (exportTasks u' st1))" by auto
  qed
next
  assume a: "distinct (map c_id (comments st)) \<and> deleteComment x u cid st = (Inr (), st2)
      \<and> castObjectId x cid = Some j"
  then have d: "distinct (map c_id (comments st))"
    and del: "deleteComment x u cid st = (Inr (), st2)"
    and j: "castObjectId x cid = Some j" by simp_all
  note sd = comment_soft_delete[OF d del j]
  show "map c_id (comments st2) = map c_id (comments st)" by (rule sd(1))
  show "\<exists>c \<in> set (comments st2). c_id c = j \<and> c_isDeleted c \<and> c_deletedAt c = Some (dateNow x)"
    by (rule sd(2))
  show "\<forall>taskId r. getComments x taskId st2 = Inr r \<longrightarrow> j \<notin> set (map (c_id \<circ> pc_doc) r)"
  proof (intro allI impI)
    fix taskId r assume "getComments x taskId st2 = Inr r"
    from getComments_live[OF this] sd(3) show "j \<notin> set (map (c_id \<circ> pc_doc) r)" by auto
  qed
  show "\<forall>u'. deleteComment x u' cid st2 = (Inl NotFound, st2)"
  proof
    fix u' :: user
    have "find (\<lambda>c. c_id c = j \<and> c_author c = u_id u' \<and> c_isDeleted c = False) (comments st2)
            = None"
      using sd(3) by (auto simp: find_None_iff)
    then show "deleteComment x u' cid st2 = (Inl NotFound, st2)"
      using j by (simp add: deleteComment_def)
  qed
next
  assume a: "distinct (map f_id (files st)) \<and> deleteFile x u fid st = (Inr (), st3)
      \<and> castObjectId x fid = Some k"
  then have d: "distinct (map f_id (files st))" and del: "deleteFile x u fid st = (Inr (), st3)"
    and k: "castObjectId x fid = Some k" by simp_all
  note sd = file_soft_delete[OF d del k]
  show "map f_id (files st3) = map f_id (files st)" by (rule sd(1))
  show "\<exists>f \<in> set (files st3). f_id f = k \<and> f_isDeleted f \<and> f_deletedAt f = Some (dateNow x)"
    by (rule sd(2))
  show "\<forall>u'. downloadFile x u' fid st3 = Inl NotFound"
  proof
    fix u' :: user
    have "find (\<lambda>f. f_id f = k \<and> f_isDeleted f = False) (files st3) = None"
      using sd(3) by (auto simp: find_None_iff)
    then show "downloadFile x u' fid st3 = Inl NotFound"
      using k by (simp add: downloadFile_def)
  qed
  show "\<forall>taskId r. getFilesForTask x taskId st3 = Inr r \<longrightarrow> k \<notin> set (map (f_id \<circ> pf_doc) r)"
  proof (intro allI impI)
    fix taskId r assume "getFilesForTask x taskId st3 = Inr r"
    from getFilesForTask_live[OF this] sd(3) show "k \<notin> set (map (f_id \<circ> pf_doc) r)" by auto
  qed
qed

theorem soft_delete_hidden_witness:
  "distinct (map t_id (tasks sample_store)) \<and> distinct (map c_id (comments sample_store))
   \<and> distinct (map f_id (files sample_store))
   \<and> (\<exists>s. deleteTask sample_ext bob ''t1'' sample_store = (Inr (), s)
          \<and> map t_id (tasks s) = [''t1'', ''t2'', ''t3'', ''t4'']
          \<and> getTaskById sample_ext ''t1'' s = Inl NotFound
          \<and> ''t1'' \<notin> set (map (t_id \<circ> pt_doc) (exportTasks carol s)))
   \<and> (\<exists>s. deleteComment sample_ext alice ''c1'' sample_store = (Inr (), s)
          \<and> map c_id (comments s) = [''c1'']
          \<and> deleteComment sample_ext alice ''c1'' s = (Inl NotFound, s))
   \<and> (\<exists>s. deleteFile sample_ext alice ''f1'' sample_store = (Inr (), s)
          \<and> map f_id (files s) = [''f1'']
          \<and> downloadFile sample_ext bob ''f1'' s = Inl NotFound)"
proof -
  have d: "distinct (map t_id (tasks sample_store))" "distinct (map c_id (comments sample_store))"
    "distinct (map f_id (files sample_store))"
    by (simp_all add: sample_defs)
  have ids: "map t_id (tasks sample_store) = [''t1'', ''t2'', ''t3'', ''t4'']"
    "map c_id (comments sample_store) = [''c1'']" "map f_id (files sample_store) = [''f1'']"
    by (simp_all add: sample_defs)
  have c: "castObjectId sample_ext ''t1'' = Some ''t1''" "castObjectId sample_ext ''c1'' = Some ''c1''"
    "castObjectId sample_ext ''f1'' = Some ''f1''"
    by (simp_all add: sample_ext_def)
  obtain s1 where e1: "deleteTask sample_ext bob ''t1'' sample_store = (Inr (), s1)"
    by (simp add: deleteTask_def sample_defs)
  obtain s2 where e2: "deleteComment sample_ext alice ''c1'' sample_store = (Inr (), s2)"
    by (simp add: deleteComment_def sample_defs)
  obtain s3 where e3: "deleteFile sample_ext alice ''f1'' sample_store = (Inr (), s3)"
    by (simp add: deleteFile_def Let_def sample_defs)
  note t = soft_delete_hidden[where x = sample_ext and st = sample_store
      and u = bob and tid = "''t1''" and ?st1.0 = s1 and i = "''t1''"]
  note t' = soft_delete_hidden[where x = sample_ext and st = sample_store
      and u = alice and cid = "''c1''" and ?st2.0 = s2 and j = "''c1''"
      and fid = "''f1''" and ?st3.0 = s3 and k = "''f1''"]
  have p1: "map t_id (tasks s1) = [''t1'', ''t2'', ''t3'', ''t4'']
            \<and> getTaskById sample_ext ''t1'' s1 = Inl NotFound
            \<and> ''t1'' \<notin> set (map (t_id \<circ> pt_doc) (exportTasks carol s1))"
    using t d(1) e1 c(1) ids(1) by simp
  have p2: "map c_id (comments s2) = [''c1'']
            \<and> deleteComment sample_ext alice ''c1'' s2 = (Inl NotFound, s2)"
    using t' d(2) e2 c(2) ids(2) by simp
  have p3: "map f_id (files s3) = [''f1'']
            \<and> downloadFile sample_ext bob ''f1'' s3 = Inl NotFound"
    using t' d(3) e3 c(3) ids(3) by simp
  have q1: "\<exists>s. deleteTask sample_ext bob ''t1'' sample_store = (Inr (), s)
          \<and> map t_id (tasks s) = [''t1'', ''t2'', ''t3'', ''t4'']
          \<and> getTaskById sample_ext ''t1'' s = Inl NotFound
          \<and> ''t1'' \<notin> set (map (t_id \<circ> pt_doc) (exportTasks carol s))"
    using e1 p1 by (intro exI[of _ s1]) simp
  have q2: "\<exists>s. deleteComment sample_ext alice ''c1'' sample_store = (Inr (), s)
          \<and> map c_id (comments s) = [''c1'']
          \<and> deleteComment sample_ext alice ''c1'' s = (Inl NotFound, s)"
    using e2 p2 by (intro exI[of _ s2]) simp
  have q3: "\<exists>s. deleteFile sample_ext alice ''f1'' sample_store = (Inr (), s)
          \<and> map f_id (files s) = [''f1'']
          \<and> downloadFile sample_ext bob ''f1'' s = Inl NotFound"
    using e3 p3 by (intro exI[of _ s3]) simp
  show ?thesis by (intro conjI; (rule d q1 q2 q3))
qed

section \<open>Access to downloads\<close>

text \<open>
  Claim C10. For a download request on a file that exists and is not deleted, whose
  parent task is in the store: the bytes are streamed only when the requesting identity
  is the creator of the parent task or the identity the task is assigned to; any other
  identity is answered Forbidden, whatever its role and whether or not it uploaded the
  file. The creator and the assignee get the stream when the path is on disk, and
  NotFound otherwise.
\<close>

theorem download_access:
  assumes "castObjectId x fid = Some i"
    and "find (\<lambda>f. f_id f = i \<and> f_isDeleted f = False) (files st) = Some f"
    and "find (\<lambda>t. t_id t = f_task f) (tasks st) = Some t"
  shows "(\<forall>d. downloadFile x u fid st = Inr d \<longrightarrow>
            t_createdBy t = u_id u \<or> t_assignedTo t = Some (u_id u))
       \<and> (t_createdBy t \<noteq> u_id u \<and> t_assignedTo t \<noteq> Some (u_id u) \<longrightarrow>
            downloadFile x u fid st = Inl Forbidden)
       \<and> (t_createdBy t = u_id u \<or> t_assignedTo t = Some (u_id u) \<longrightarrow>
            downloadFile x u fid st =
              (if f_path f \<in> set (disk st)
               then Inr \<lparr>d_contentType = f_mimetype f, d_filename = f_originalName f,
                         d_path = f_path f\<rparr>
               else Inl NotFound))"
  using assms by (auto simp: downloadFile_def)

theorem download_access_witness:
  "castObjectId sample_ext ''f1'' = Some ''f1''
   \<and> find (\<lambda>f. f_id f = ''f1'' \<and> f_isDeleted f = False) (files sample_store) = Some sample_file
   \<and> find (\<lambda>t. t_id t = f_task sample_file) (tasks sample_store) = Some (sample_tasks ! 2)
   \<and> f_uploadedBy sample_file = u_id alice
   \<and> downloadFile sample_ext alice ''f1'' sample_store = Inl Forbidden
   \<and> u_role carol = ''admin''
   \<and> downloadFile sample_ext carol ''f1'' sample_store = Inl Forbidden
   \<and> t_createdBy (sample_tasks ! 2) = u_id bob
   \<and> downloadFile sample_ext bob ''f1'' sample_store
       = Inr \<lparr>d_contentType = ''text/plain'', d_filename = ''notes.txt'',
              d_path = ''uploads/a1.txt''\<rparr>"
proof -
  have h1: "castObjectId sample_ext ''f1'' = Some ''f1''" by (simp add: sample_ext_def)
  have h2: "find (\<lambda>f. f_id f = ''f1'' \<and> f_isDeleted f = False) (files sample_store)
              = Some sample_file"
    by (simp add: sample_store_def sample_file_def)
  have h3: "find (\<lambda>t. t_id t = f_task sample_file) (tasks sample_store) = Some (sample_tasks ! 2)"
    by (simp add: sample_store_def sample_file_def sample_tasks_def mk_task_def)
  have t: "t_createdBy (sample_tasks ! 2) = ''u2''" "t_assignedTo (sample_tasks ! 2) = None"
    by (simp_all add: sample_tasks_def mk_task_def)
  have f: "f_uploadedBy sample_file = u_id alice" "u_role carol = ''admin''"
    "f_path sample_file \<in> set (disk sample_store)" "f_mimetype sample_file = ''text/plain''"
    "f_originalName sample_file = ''notes.txt''" "f_path sample_file = ''uploads/a1.txt''"
    by (simp_all add: sample_file_def alice_def carol_def sample_store_def)
  have ids: "u_id alice = ''u1''" "u_id bob = ''u2''" "u_id carol = ''u3''"
    by (simp_all add: alice_def bob_def carol_def)
  have a: "downloadFile sample_ext alice ''f1'' sample_store = Inl Forbidden"
    using download_access[OF h1 h2 h3, of alice] t ids by simp
  have c: "downloadFile sample_ext carol ''f1'' sample_store = Inl Forbidden"
    using download_access[OF h1 h2 h3, of carol] t ids by simp
  have b: "downloadFile sample_ext bob ''f1'' sample_store
       = Inr \<lparr>d_contentType = ''text/plain'', d_filename = ''notes.txt'',
              d_path = ''uploads/a1.txt''\<rparr>"
    using download_access[OF h1 h2 h3, of bob] t ids f by simp
  show ?thesis using h1 h2 h3 f(1,2) a c b t(1) ids(2) by simp
qed

section \<open>Ownership checks\<close>

text \<open>
  Claim C1 does not hold of the handlers. \<open>updateTask\<close> and \<open>deleteTask\<close> never read the
  identity of the request, so their answer is the same for every identity: in the sample
  store Alice, who is neither the creator nor the assignee of task \<open>t3\<close> and is no
  admin, deletes the task and renames it, where the claim answers Forbidden. The comment
  handlers look the comment up by id and author together, so Bob, who is not the author
  of comment \<open>c1\<close> and is no admin, is answered NotFound where the claim and the route
  documentation answer Forbidden. No handler reads the role: Carol, an admin, is refused
  the delete of a comment (NotFound) and of a file (Forbidden) that are not hers, where
  the claim lets an admin succeed. And Bob, who did not upload file \<open>f1\<close> and is no
  admin, deletes it, being the creator of its parent task.
\<close>

theorem ownership_not_enforced:
  "deleteTask x u tid st = deleteTask x u' tid st
   \<and> updateTask x u tid upd st = updateTask x u' tid upd st
   \<and> u_id alice \<noteq> t_createdBy (sample_tasks ! 2) \<and> t_assignedTo (sample_tasks ! 2) = None
   \<and> u_role alice \<noteq> ''admin''
   \<and> find (\<lambda>t. t_id t = ''t3'' \<and> t_isDeleted t = False) (tasks sample_store)
       = Some (sample_tasks ! 2)
   \<and> fst (deleteTask sample_ext alice ''t3'' sample_store) = Inr ()
   \<and> (\<exists>r s. updateTask sample_ext alice ''t3''
               \<lparr>up_title = Some ''Taken'', up_description = None, up_status = None,
                up_priority = None, up_dueDate = None, up_tags = None, up_assignedTo = None\<rparr>
               sample_store = (Inr r, s) \<and> t_title (pt_doc r) = ''Taken'')
   \<and> u_id bob \<noteq> c_author sample_comment \<and> u_role bob \<noteq> ''admin''
   \<and> find (\<lambda>c. c_id c = ''c1'' \<and> c_isDeleted c = False) (comments sample_store)
       = Some sample_comment
   \<and> deleteComment sample_ext bob ''c1'' sample_store = (Inl NotFound, sample_store)
   \<and> updateComment sample_ext bob ''c1'' \<lparr>cb_content = Some ''edited''\<rparr> sample_store
       = (Inl NotFound, sample_store)
   \<and> u_role carol = ''admin''
   \<and> fst (deleteComment sample_ext carol ''c1'' sample_store) = Inl NotFound
   \<and> fst (deleteFile sample_ext carol ''f1'' sample_store) = Inl Forbidden
   \<and> u_id bob \<noteq> f_uploadedBy sample_file
   \<and> fst (deleteFile sample_ext bob ''f1'' sample_store) = Inr ()"
proof -
  have 0: "deleteTask x u tid st = deleteTask x u' tid st"
    "updateTask x u tid upd st = updateTask x u' tid upd st"
    by (simp_all add: deleteTask_def updateTask_def)
  have 1: "u_id alice \<noteq> t_createdBy (sample_tasks ! 2)" "t_assignedTo (sample_tasks ! 2) = None"
    "u_role alice \<noteq> ''admin''" "u_role carol = ''admin''"
    "u_id bob \<noteq> f_uploadedBy sample_file" "u_role bob \<noteq> ''admin''"
    "u_id bob \<noteq> c_author sample_comment"
    by (simp_all add: sample_defs)
  have 2: "find (\<lambda>t. t_id t = ''t3'' \<and> t_isDeleted t = False) (tasks sample_store)
       = Some (sample_tasks ! 2)"
    "find (\<lambda>c. c_id c = ''c1'' \<and> c_isDeleted c = False) (comments sample_store)
       = Some sample_comment"
    by (simp_all add: sample_defs)
  have 3: "fst (deleteTask sample_ext alice ''t3'' sample_store) = Inr ()"
    by (simp add: deleteTask_def sample_defs)
  have 4: "\<exists>r s. updateTask sample_ext alice ''t3''
               \<lparr>up_title = Some ''Taken'', up_description = None, up_status = None,
                up_priority = None, up_dueDate = None, up_tags = None, up_assignedTo = None\<rparr>
               sample_store = (Inr r, s) \<and> t_title (pt_doc r) = ''Taken''"
    by (simp add: updateTask_def cast_update_def cast_ref_def Let_def truthy_opt_def
          ascii_trim_def ascii_space_def populate_task_def sample_defs)
  have 5: "deleteComment sample_ext bob ''c1'' sample_store = (Inl NotFound, sample_store)"
    "fst (deleteComment sample_ext carol ''c1'' sample_store) = Inl NotFound"
    by (simp_all add: deleteComment_def sample_defs)
  have 6: "updateComment sample_ext bob ''c1'' \<lparr>cb_content = Some ''edited''\<rparr> sample_store
             = (Inl NotFound, sample_store)"
    by (simp add: updateComment_def cast_content_def truthy_def ascii_trim_def ascii_space_def
          sample_defs)
  have 7: "fst (deleteFile sample_ext carol ''f1'' sample_store) = Inl Forbidden"
    by (simp add: deleteFile_def sample_defs)
  have 8: "fst (deleteFile sample_ext bob ''f1'' sample_store) = Inr ()"
    by (simp add: deleteFile_def Let_def sample_defs)
  show ?thesis by (intro conjI; (rule 0 1 2 3 4 5 6 7 8))
qed

end
